theory Spec2Isabelle
  imports Complex_Main "HOL-Library.Sublist"
begin

section \<open>Text: Python strings and the word wrap of the drawing backend\<close>

text \<open>
  A Python \<^verbatim>\<open>str\<close> is a \<^typ>\<open>string\<close>, one \<^typ>\<open>char\<close> per character.
  Python floats are exact rationals here: every coordinate the program computes is a sum of
  integers and of multiples of \<^verbatim>\<open>551.0 / 1026.0\<close>, and no comparison of the program
  is decided by a rounding error (the distances involved are far above it).
\<close>

definition isspace :: "char \<Rightarrow> bool" where
  \<comment> \<open>the characters \<^verbatim>\<open>str.split()\<close> treats as white space, among the codes below 256\<close>
  "isspace c = (c \<in> set [CHR 0x09, CHR 0x0A, CHR 0x0B, CHR 0x0C, CHR 0x0D,
                          CHR 0x1C, CHR 0x1D, CHR 0x1E, CHR 0x1F, CHR 0x20, CHR 0x85, CHR 0xA0])"

fun split_acc :: "string \<Rightarrow> string \<Rightarrow> string list" where
  "split_acc cur [] = (if cur = [] then [] else [cur])"
| "split_acc cur (c # cs) =
     (if isspace c then (if cur = [] then split_acc [] cs else cur # split_acc [] cs)
      else split_acc (cur @ [c]) cs)"

definition str_split :: "string \<Rightarrow> string list" where
  \<comment> \<open>\<^verbatim>\<open>txt.split()\<close>: the maximal runs of non-space characters\<close>
  "str_split txt = split_acc [] txt"

fun split_on :: "char \<Rightarrow> string \<Rightarrow> string \<Rightarrow> string list" where
  "split_on sep cur [] = [cur]"
| "split_on sep cur (c # cs) =
     (if c = sep then cur # split_on sep [] cs else split_on sep (cur @ [c]) cs)"

definition split_nl :: "string \<Rightarrow> string list" where
  \<comment> \<open>\<^verbatim>\<open>text.split('\n')\<close>: empty pieces are kept\<close>
  "split_nl text = split_on (CHR 0x0A) [] text"

fun join :: "string list \<Rightarrow> string" where
  \<comment> \<open>\<^verbatim>\<open>' '.join(words)\<close>\<close>
  "join [] = []"
| "join [w] = w"
| "join (w # v # ws) = w @ CHR '' '' # join (v # ws)"

definition stringWidth :: "string \<Rightarrow> string \<Rightarrow> rat \<Rightarrow> rat" where
  \<comment> \<open>Modelled from the spec: the text measurement of the drawing backend
      (``monospace-font text-width measurement''), which is not part of the repository.
      The program only uses Courier and Courier-Bold, whose glyphs all advance 600/1000 em.\<close>
  "stringWidth text fontName fontSize = of_nat (600 * length text) * (1 / 1000) * fontSize"

fun wrap_words :: "(string \<Rightarrow> rat) \<Rightarrow> rat \<Rightarrow> string list \<Rightarrow> rat \<Rightarrow> string list \<Rightarrow> string list" where
  "wrap_words SW mW line w [] = (if line \<noteq> [] then [join line] else [])"
| "wrap_words SW mW line w (t # ts) =
     (let ws = SW '' ''; lt = SW t in
      if w + ws + lt \<le> mW \<or> line = [] then wrap_words SW mW (line @ [t]) (w + ws + lt) ts
      else join line # wrap_words SW mW [t] lt ts)"

definition simpleSplit_line :: "string \<Rightarrow> rat \<Rightarrow> (string \<Rightarrow> rat) \<Rightarrow> string list" where
  \<comment> \<open>Modelled from the spec: the greedy packing of one paragraph (``packs words left-to-right,
      breaking to a new line when the next word would exceed maxWidth''); a word wider than
      the budget stands alone on its line.\<close>
  "simpleSplit_line txt mW SW = wrap_words SW mW [] (- SW '' '') (str_split txt)"

definition simpleSplit :: "string \<Rightarrow> string \<Rightarrow> rat \<Rightarrow> rat \<Rightarrow> string list" where
  \<comment> \<open>Modelled from the spec: \<^verbatim>\<open>simpleSplit\<close> is imported from the drawing backend
      (the spec's \<^verbatim>\<open>wrapText(text, font, size, maxWidth)\<close>, ``greedy word-wrap''); its
      code is not part of the repository. Paragraphs (pieces between newlines) are wrapped
      one by one; a width budget of zero leaves them unwrapped.\<close>
  "simpleSplit text fontName fontSize maxWidth =
     (let lines = split_nl text; SW = (\<lambda>t. stringWidth t fontName fontSize) in
      if maxWidth \<noteq> 0 then concat (map (\<lambda>l. simpleSplit_line l maxWidth SW) lines) else lines)"

fun dec :: "nat \<Rightarrow> string" where
  \<comment> \<open>the decimal digits of a number\<close>
  "dec n = (if n < 10 then [''0123456789'' ! n] else dec (n div 10) @ [''0123456789'' ! (n mod 10)])"

definition fmt02d :: "nat \<Rightarrow> string" where
  \<comment> \<open>the format \<^verbatim>\<open>{:02d}\<close>: at least two digits, padded with a zero\<close>
  "fmt02d n = (if n < 10 then CHR ''0'' # dec n else dec n)"

definition upper_char :: "char \<Rightarrow> char" where
  "upper_char c = (if c \<in> set ''abcdefghijklmnopqrstuvwxyz''
     then ''ABCDEFGHIJKLMNOPQRSTUVWXYZ'' ! (of_char c - 97) else c)"

definition upper :: "string \<Rightarrow> string" where
  \<comment> \<open>Modelled from the spec: \<^verbatim>\<open>str.upper()\<close> of the Python runtime (``the client's name
      (uppercased)''): the letters a to z become A to Z; the model leaves every other
      character as it is.\<close>
  "upper s = map upper_char s"

section \<open>The canvas and the state of \<^verbatim>\<open>generate_pdf\<close>\<close>

datatype color = HexColor string

definition GREEN :: color where "GREEN = HexColor ''#00ff88''"
definition CYAN :: color where "CYAN = HexColor ''#00d4ff''"
definition ORANGE :: color where "ORANGE = HexColor ''#ff9f43''"
definition YELLOW :: color where "YELLOW = HexColor ''#ffd93d''"
definition RED :: color where "RED = HexColor ''#ff4d6a''"
definition PINK :: color where "PINK = HexColor ''#ff69b4''"
definition PURPLE :: color where "PURPLE = HexColor ''#b44dff''"
definition WHITE :: color where "WHITE = HexColor ''#ffffff''"
definition GRAY_LIGHT :: color where "GRAY_LIGHT = HexColor ''#cccccc''"
definition GRAY :: color where "GRAY = HexColor ''#999999''"
definition GRAY_DIM :: color where "GRAY_DIM = HexColor ''#555555''"
definition GREEN_DARK :: color where "GREEN_DARK = HexColor ''#0a1f14''"
definition CARD :: color where "CARD = HexColor ''#111111''"
definition BLACK :: color where "BLACK = HexColor ''#000000''"

definition letter :: "rat \<times> rat" where
  \<comment> \<open>Modelled from the spec: the backend's page size constant (``612x792 point canvas'').\<close>
  "letter = (612, 792)"

definition W :: rat where "W = fst letter"
definition H :: rat where "H = snd letter"
definition ML' :: rat where "ML' = 70"
definition MR :: rat where "MR = W - 70"
definition CW :: rat where "CW = MR - ML'"
definition LOGO_ASPECT :: rat where "LOGO_ASPECT = 551 / 1026"

text \<open>
  The canvas is write-only for the program: it is modelled by the calls made on it. The
  keyword arguments \<^verbatim>\<open>fill\<close> and \<^verbatim>\<open>stroke\<close> of \<^verbatim>\<open>rect\<close> and \<^verbatim>\<open>roundRect\<close> are the last
  two arguments, in this order.
\<close>

datatype call =
    SetFillColor color
  | SetStrokeColor color
  | SetLineWidth rat
  | SetDash "rat list"
  | SetFont string rat
  | Rect rat rat rat rat nat nat
  | RoundRect rat rat rat rat rat nat nat
  | Line rat rat rat rat
  | DrawString rat rat string
  | DrawRightString rat rat string
  | DrawCentredString rat rat string

type_synonym page = "(rat \<times> rat) \<times> call list"

text \<open>
  The state of \<^verbatim>\<open>generate_pdf\<close>: the canvas \<^verbatim>\<open>c\<close> (page size, file name, the calls on
  the page being drawn, the pages closed so far) and the local variable \<^verbatim>\<open>y\<close>, here
  \<open>cursor\<close>. Two fields record history and are read by no operation: \<open>trail\<close> is the list
  of the values assigned to \<^verbatim>\<open>y\<close> on the page being drawn, oldest first, and \<open>trails\<close>
  keeps the trail of every closed page.
\<close>

record state =
  pagesize :: "rat \<times> rat"
  filename :: string
  page_code :: "call list"
  pages :: "page list"
  cursor :: rat
  trail :: "rat list"
  trails :: "rat list list"

definition Canvas :: "string \<Rightarrow> rat \<times> rat \<Rightarrow> state" where
  \<comment> \<open>\<^verbatim>\<open>canvas.Canvas(output, pagesize=...)\<close>; \<^verbatim>\<open>y\<close> is unbound until its first assignment\<close>
  "Canvas output ps =
     \<lparr>pagesize = ps, filename = output, page_code = [], pages = [], cursor = 0, trail = [], trails = []\<rparr>"

definition emit :: "call \<Rightarrow> state \<Rightarrow> state" where
  "emit k s = s\<lparr>page_code := page_code s @ [k]\<rparr>"

abbreviation "setFillColor col \<equiv> emit (SetFillColor col)"
abbreviation "setStrokeColor col \<equiv> emit (SetStrokeColor col)"
abbreviation "setLineWidth w \<equiv> emit (SetLineWidth w)"
abbreviation "setDash pat \<equiv> emit (SetDash pat)"
abbreviation "setFont name sz \<equiv> emit (SetFont name sz)"
abbreviation "rect x y0 w h fill stroke \<equiv> emit (Rect x y0 w h fill stroke)"
abbreviation "roundRect x y0 w h r fill stroke \<equiv> emit (RoundRect x y0 w h r fill stroke)"
abbreviation "line x1 y1 x2 y2 \<equiv> emit (Line x1 y1 x2 y2)"
abbreviation "drawString x y0 text \<equiv> emit (DrawString x y0 text)"
abbreviation "drawRightString x y0 text \<equiv> emit (DrawRightString x y0 text)"
abbreviation "drawCentredString x y0 text \<equiv> emit (DrawCentredString x y0 text)"

definition showPage :: "state \<Rightarrow> state" where
  \<comment> \<open>Modelled from the spec: closes the page being drawn (``each leaving the canvas cursor in
      a terminal state triggering a page break''); the page has the canvas's page size.\<close>
  "showPage s = s\<lparr>pages := pages s @ [(pagesize s, page_code s)], page_code := [],
                   trails := trails s @ [trail s], trail := []\<rparr>"

definition save :: "state \<Rightarrow> state" where
  \<comment> \<open>Modelled from the spec: finalises the document; a page still open with content on it
      is closed first.\<close>
  "save s = (if page_code s \<noteq> [] then showPage s else s)"

definition assign_y :: "rat \<Rightarrow> state \<Rightarrow> state" where
  \<comment> \<open>\<^verbatim>\<open>y = v\<close>\<close>
  "assign_y v s = s\<lparr>cursor := v, trail := trail s @ [v]\<rparr>"

definition dec_y :: "rat \<Rightarrow> state \<Rightarrow> state" where
  \<comment> \<open>\<^verbatim>\<open>y -= d\<close>\<close>
  "dec_y d s = assign_y (cursor s - d) s"

definition at_y :: "(rat \<Rightarrow> state \<Rightarrow> state) \<Rightarrow> state \<Rightarrow> state" where
  \<comment> \<open>a statement that reads \<^verbatim>\<open>y\<close>\<close>
  "at_y f s = f (cursor s) s"

definition run :: "(state \<Rightarrow> state) list \<Rightarrow> state \<Rightarrow> state" where
  \<comment> \<open>statements in sequence\<close>
  "run fs s = fold (\<lambda>f. f) fs s"

definition with_result :: "(state \<Rightarrow> 'a \<times> state) \<Rightarrow> ('a \<Rightarrow> state \<Rightarrow> state) \<Rightarrow> state \<Rightarrow> state" where
  \<comment> \<open>\<^verbatim>\<open>v = f(c, ...)\<close> followed by a statement that uses \<^verbatim>\<open>v\<close>\<close>
  "with_result f g s = (case f s of (v, s') \<Rightarrow> g v s')"

definition ignore_result :: "(state \<Rightarrow> 'a \<times> state) \<Rightarrow> state \<Rightarrow> state" where
  \<comment> \<open>a call whose returned value is dropped\<close>
  "ignore_result f s = snd (f s)"

section \<open>The drawing helpers\<close>

definition bg :: "state \<Rightarrow> state" where
  "bg = run [setFillColor BLACK, rect 0 0 W H 1 0]"

definition draw_logo :: "rat \<Rightarrow> rat \<Rightarrow> rat \<Rightarrow> state \<Rightarrow> rat \<times> state" where
  "draw_logo x y0 w s =
     (let h = w * LOGO_ASPECT in
      (h, run [setFont ''Courier-Bold'' 14,
               setFillColor GREEN,
               drawString x (y0 + h / 2) ''blok blok studio''] s))"

definition header :: "nat \<Rightarrow> nat \<Rightarrow> state \<Rightarrow> rat \<times> state" where
  "header pg total' s =
     (let logo_w = 80;
          logo_h = logo_w * LOGO_ASPECT;
          line_y = H - 28 - logo_h - 8
      in (line_y - 30,
          run [setFillColor GREEN,
               rect 0 (H - 5) W 5 1 0,
               ignore_result (draw_logo ML' (H - 28 - logo_h) logo_w),
               setFont ''Courier'' 10,
               setFillColor GRAY,
               drawRightString MR (H - 48) (fmt02d pg @ '' / '' @ fmt02d total'),
               setStrokeColor GREEN,
               setLineWidth 1,
               line ML' line_y MR line_y] s))"

definition footer :: "state \<Rightarrow> state" where
  "footer = run [setStrokeColor GREEN,
                 setLineWidth (1 / 2),
                 line ML' 42 MR 42,
                 setFont ''Courier'' 8,
                 setFillColor GRAY,
                 drawCentredString (W / 2) 26 ''blokblokstudio.com | @haynes2va | @blokblokstudio'']"

definition badge :: "rat \<Rightarrow> rat \<Rightarrow> string \<Rightarrow> color \<Rightarrow> state \<Rightarrow> rat \<times> state" where
  "badge x y0 text color s =
     (let tw = stringWidth text ''Courier-Bold'' 8;
          bw = tw + 14;
          bh = 18
      in (bw,
          run [setFont ''Courier-Bold'' 8,
               setFillColor color,
               roundRect x (y0 - bh) bw bh 3 1 0,
               setFillColor BLACK,
               drawString (x + 7) (y0 - 13) text] s))"

definition dashed_card :: "rat \<Rightarrow> rat \<Rightarrow> rat \<Rightarrow> rat \<Rightarrow> color \<Rightarrow> state \<Rightarrow> state" where
  "dashed_card x y0 w h border_color =
     run [setFillColor CARD,
          setStrokeColor border_color,
          setLineWidth (12 / 10),
          setDash [4, 3],
          roundRect x y0 w h 4 1 1,
          setDash []]"

definition color_bar :: "rat \<Rightarrow> rat \<Rightarrow> color \<Rightarrow> rat \<Rightarrow> rat \<Rightarrow> state \<Rightarrow> state" where
  \<comment> \<open>every call of the program leaves \<^verbatim>\<open>w\<close> and \<^verbatim>\<open>h\<close> at their defaults, 30 and 3\<close>
  "color_bar x y0 color w h = run [setFillColor color, rect x y0 w h 1 0]"

section \<open>The six pages\<close>

definition total_pages :: nat where "total_pages = 6"

definition EM_DASH :: string where
  \<comment> \<open>the em dash of the fixed copy: one character that is not white space (written here
      with its code in the font's single-byte encoding)\<close>
  "EM_DASH = [CHR 0x97]"

definition page1 :: "string \<Rightarrow> string \<Rightarrow> state \<Rightarrow> state" where
  \<comment> \<open>PAGE 1: COVER\<close>
  "page1 name field =
     (let badge_text = ''CLIENT STRATEGY | BLOK BLOK STUDIO'';
          btw = stringWidth badge_text ''Courier-Bold'' 10;
          bx = (W - btw - 20) / 2;
          logo_w = 140
      in run [bg,
              setFillColor GREEN,
              rect 0 (H - 5) W 5 1 0,
              setFont ''Courier-Bold'' 10,
              assign_y (H - 70),
              setFillColor GREEN_DARK,
              setStrokeColor GREEN,
              setLineWidth 1,
              at_y (\<lambda>y. roundRect bx y (btw + 20) 28 4 1 1),
              setFillColor GREEN,
              at_y (\<lambda>y. drawCentredString (W / 2) (y + 9) badge_text),
              dec_y 40,
              at_y (\<lambda>y. with_result (draw_logo ((W - logo_w) / 2) (y - logo_w * LOGO_ASPECT) logo_w)
                            (\<lambda>logo_h. dec_y (logo_h + 50))),
              setFont ''Courier-Bold'' 16,
              setFillColor WHITE,
              at_y (\<lambda>y. drawCentredString (W / 2) y ''FREE BUSINESS AUDIT''),
              dec_y 45,
              setFont ''Courier-Bold'' 28,
              setFillColor GREEN,
              at_y (\<lambda>y. drawCentredString (W / 2) y (upper name)),
              dec_y 35,
              setFont ''Courier-Bold'' 14,
              setFillColor WHITE,
              at_y (\<lambda>y. drawCentredString (W / 2) y field),
              dec_y 35,
              setStrokeColor GREEN,
              setLineWidth 2,
              at_y (\<lambda>y. line (W / 2 - 60) y (W / 2 + 60) y),
              dec_y 30,
              setFont ''Courier'' 10,
              setFillColor GRAY,
              at_y (\<lambda>y. drawCentredString (W / 2) y ''Custom strategy & automation roadmap''),
              dec_y 16,
              at_y (\<lambda>y. drawCentredString (W / 2) y (''Prepared for '' @ name @ '' | '' @ field)),
              ignore_result (draw_logo ((W - 110) / 2) 80 110),
              footer,
              showPage])"

definition problem_card_h :: "string \<Rightarrow> rat" where
  \<comment> \<open>\<^verbatim>\<open>card_h = 40 + len(problem_lines) * 14\<close>, the problem statement in double quotes\<close>
  "problem_card_h problem =
     40 + of_nat (length (simpleSplit (CHR 0x22 # problem @ [CHR 0x22]) ''Courier'' 10 (CW - 30))) * 14"

definition problem_card :: "string \<Rightarrow> state \<Rightarrow> state" where
  "problem_card problem =
     (let problem_lines = simpleSplit (CHR 0x22 # problem @ [CHR 0x22]) ''Courier'' 10 (CW - 30);
          card_h = problem_card_h problem
      in run [at_y (\<lambda>y. dashed_card ML' (y - card_h) CW card_h RED),
              at_y (\<lambda>y. color_bar (ML' + 10) (y - 10) RED 30 3),
              setFont ''Courier-Bold'' 9,
              setFillColor RED,
              at_y (\<lambda>y. drawString (ML' + 14) (y - 24) ''YOUR BIGGEST CHALLENGE''),
              setFont ''Courier'' 10,
              setFillColor GRAY_LIGHT,
              at_y (\<lambda>y. fold (\<lambda>(i, line). drawString (ML' + 14) (y - 42 - of_nat i * 14) line)
                              (enumerate 0 problem_lines)),
              dec_y (card_h + 14)])"

definition stats :: "(string \<times> string \<times> string \<times> color) list" where
  "stats =
     [(''67%'', ''of businesses using AI saw 20%+ revenue growth within 12 months'',
       ''McKinsey, 2025'', CYAN),
      (''78%'', ''of leads go cold because businesses take 5+ hours to respond'',
       ''InsideSales Research'', ORANGE),
      (''10-15 hrs'', ''per week saved on average when manual workflows are automated'',
       ''HubSpot State of AI'', YELLOW)]"

definition stat_card_h :: "string \<Rightarrow> rat" where
  \<comment> \<open>\<^verbatim>\<open>card_h = 38 + len(desc_lines) * 12 + 14\<close>\<close>
  "stat_card_h desc = 38 + of_nat (length (simpleSplit desc ''Courier'' 9 (CW - 30))) * 12 + 14"

definition stat_card :: "string \<times> string \<times> string \<times> color \<Rightarrow> state \<Rightarrow> state" where
  \<comment> \<open>the body of the loop, after the check\<close>
  "stat_card = (\<lambda>(val, desc, source, color).
     (let desc_lines = simpleSplit desc ''Courier'' 9 (CW - 30);
          card_h = stat_card_h desc
      in run [at_y (\<lambda>y. dashed_card ML' (y - card_h) CW card_h color),
              at_y (\<lambda>y. color_bar (ML' + 10) (y - 10) color 30 3),
              setFont ''Courier-Bold'' 16,
              setFillColor WHITE,
              at_y (\<lambda>y. drawString (ML' + 14) (y - 28) val),
              setFont ''Courier'' 9,
              setFillColor GRAY_LIGHT,
              at_y (\<lambda>y. fold (\<lambda>(i, line). drawString (ML' + 14) (y - 44 - of_nat i * 12) line)
                              (enumerate 0 desc_lines)),
              setFont ''Courier'' 7,
              setFillColor GRAY_DIM,
              at_y (\<lambda>y. drawRightString (MR - 14) (y - card_h + 8) (''Source: '' @ source)),
              dec_y (card_h + 12)]))"

fun stats_loop :: "(string \<times> string \<times> string \<times> color) list \<Rightarrow> state \<Rightarrow> state" where
  \<comment> \<open>\<^verbatim>\<open>for val, desc, source, color in stats: ... if y - card_h < 60: break ...\<close>\<close>
  "stats_loop [] s = s"
| "stats_loop ((val, desc, source, color) # rest) s =
     (if cursor s - stat_card_h desc < 60 then s
      else stats_loop rest (stat_card (val, desc, source, color) s))"

definition page2_top :: "string \<Rightarrow> string \<Rightarrow> state \<Rightarrow> state" where
  \<comment> \<open>PAGE 2: THE PROBLEM, up to and including the problem card\<close>
  "page2_top field problem =
     run [bg,
          with_result (header 2 total_pages) assign_y,
          footer,
          at_y (\<lambda>y. ignore_result (badge ML' y ''THE CHALLENGE'' RED)),
          dec_y 46,
          setFont ''Courier-Bold'' 24,
          setFillColor WHITE,
          at_y (\<lambda>y. drawString ML' y ''Where You Are Now''),
          dec_y 22,
          setFont ''Courier'' 10,
          setFillColor GRAY,
          at_y (\<lambda>y. drawString ML' y (''Based on your audit submission for '' @ field)),
          dec_y 28,
          problem_card problem]"

definition page2 :: "string \<Rightarrow> string \<Rightarrow> state \<Rightarrow> state" where
  "page2 field problem = run [page2_top field problem, stats_loop stats, showPage]"

definition opportunities :: "string \<Rightarrow> (string \<times> string \<times> color) list" where
  "opportunities field =
     [(''Instant Lead Response'',
       ''When someone contacts your '' @ field @ '' business, AI responds in under 60 seconds '' @ EM_DASH @ '' qualifying, answering questions, and booking calls on your calendar. No more lost leads from slow follow-up.'',
       GREEN),
      (''Automated Follow-Up Sequences'',
       ''Personalized email sequences that nurture leads on autopilot. Each message adapts based on what the lead cares about. Runs 24/7 without you touching it.'',
       CYAN),
      (''AI-Powered Content System'',
       ''Turn one idea into 10 pieces of content across platforms. Blog posts, social media, email newsletters '' @ EM_DASH @ '' all generated, scheduled, and posted automatically.'',
       ORANGE),
      (''Smart Client Dashboard'',
       ''Give your clients a real-time dashboard showing results, progress, and ROI. Builds trust, reduces check-in calls, and makes you look incredibly professional.'',
       PURPLE)]"

definition opp_card_h :: "string \<Rightarrow> rat" where
  \<comment> \<open>\<^verbatim>\<open>card_h = 34 + len(desc_lines) * 11 + 10\<close>\<close>
  "opp_card_h desc = 34 + of_nat (length (simpleSplit desc ''Courier'' 8 (CW - 30))) * 11 + 10"

definition opp_card :: "string \<times> string \<times> color \<Rightarrow> state \<Rightarrow> state" where
  \<comment> \<open>the body of the loop, after the check\<close>
  "opp_card = (\<lambda>(title, desc, color).
     (let desc_lines = simpleSplit desc ''Courier'' 8 (CW - 30);
          card_h = opp_card_h desc
      in run [at_y (\<lambda>y. dashed_card ML' (y - card_h) CW card_h color),
              at_y (\<lambda>y. color_bar (ML' + 10) (y - 10) color 30 3),
              setFont ''Courier-Bold'' 10,
              setFillColor WHITE,
              at_y (\<lambda>y. drawString (ML' + 14) (y - 26) title),
              setFont ''Courier'' 8,
              setFillColor GRAY_LIGHT,
              at_y (\<lambda>y. fold (\<lambda>(i, line). drawString (ML' + 14) (y - 42 - of_nat i * 11) line)
                              (enumerate 0 desc_lines)),
              dec_y (card_h + 10)]))"

fun opps_loop :: "(string \<times> string \<times> color) list \<Rightarrow> state \<Rightarrow> state" where
  \<comment> \<open>\<^verbatim>\<open>for title, desc, color in opportunities: ... if y - card_h < 60: break ...\<close>\<close>
  "opps_loop [] s = s"
| "opps_loop ((title, desc, color) # rest) s =
     (if cursor s - opp_card_h desc < 60 then s
      else opps_loop rest (opp_card (title, desc, color) s))"

definition page3 :: "string \<Rightarrow> state \<Rightarrow> state" where
  \<comment> \<open>PAGE 3: OPPORTUNITIES\<close>
  "page3 field =
     run [bg,
          with_result (header 3 total_pages) assign_y,
          footer,
          at_y (\<lambda>y. ignore_result (badge ML' y ''OPPORTUNITIES'' GREEN)),
          dec_y 46,
          setFont ''Courier-Bold'' 24,
          setFillColor WHITE,
          at_y (\<lambda>y. drawString ML' y ''What You're Missing''),
          dec_y 22,
          setFont ''Courier'' 10,
          setFillColor GRAY,
          at_y (\<lambda>y. drawString ML' y ''AI & automation opportunities tailored to your business''),
          dec_y 28,
          opps_loop (opportunities field),
          showPage]"

definition phases :: "(string \<times> string \<times> string \<times> color) list" where
  "phases =
     [(''WEEK 1-2'', ''Foundation'',
       ''Audit your current tools, set up core integrations, build your AI response system. You'll see results from day one.'',
       GREEN),
      (''WEEK 3-4'', ''Automation'',
       ''Connect your workflows '' @ EM_DASH @ '' lead capture, follow-up sequences, content pipeline. Everything runs without manual input.'',
       CYAN),
      (''WEEK 5-6'', ''Optimization'',
       ''Analyze what's working, refine messaging, add advanced features. Scale what converts, cut what doesn't.'',
       ORANGE),
      (''ONGOING'', ''Growth'',
       ''Monthly optimization, new automations as needs evolve, priority support. Your systems get smarter over time.'',
       YELLOW)]"

definition phase_card_h :: "string \<Rightarrow> rat" where
  \<comment> \<open>\<^verbatim>\<open>card_h = 18 + 22 + 14 + len(desc_lines) * 11 + 18\<close>\<close>
  "phase_card_h desc =
     18 + 22 + 14 + of_nat (length (simpleSplit desc ''Courier'' 8 (CW - 30))) * 11 + 18"

definition phase_card :: "string \<times> string \<times> string \<times> color \<Rightarrow> state \<Rightarrow> state" where
  \<comment> \<open>the body of the loop, after the check\<close>
  "phase_card = (\<lambda>(tag, title, desc, color).
     (let desc_lines = simpleSplit desc ''Courier'' 8 (CW - 30);
          card_h = phase_card_h desc
      in run [at_y (\<lambda>y. dashed_card ML' (y - card_h) CW card_h color),
              at_y (\<lambda>y. ignore_result (badge (ML' + 12) (y - 4) tag color)),
              setFont ''Courier-Bold'' 11,
              setFillColor WHITE,
              at_y (\<lambda>y. drawString (ML' + 14) (y - 42) title),
              setFont ''Courier'' 8,
              setFillColor GRAY_LIGHT,
              at_y (\<lambda>y. fold (\<lambda>(i, line). drawString (ML' + 14) (y - 58 - of_nat i * 11) line)
                              (enumerate 0 desc_lines)),
              dec_y (card_h + 10)]))"

fun phases_loop :: "(string \<times> string \<times> string \<times> color) list \<Rightarrow> state \<Rightarrow> state" where
  \<comment> \<open>\<^verbatim>\<open>for tag, title, desc, color in phases: ... if y - card_h < 60: break ...\<close>\<close>
  "phases_loop [] s = s"
| "phases_loop ((tag, title, desc, color) # rest) s =
     (if cursor s - phase_card_h desc < 60 then s
      else phases_loop rest (phase_card (tag, title, desc, color) s))"

definition page4 :: "string \<Rightarrow> string \<Rightarrow> state \<Rightarrow> state" where
  \<comment> \<open>PAGE 4: ROADMAP\<close>
  "page4 name field =
     run [bg,
          with_result (header 4 total_pages) assign_y,
          footer,
          at_y (\<lambda>y. ignore_result (badge ML' y ''YOUR ROADMAP'' CYAN)),
          dec_y 46,
          setFont ''Courier-Bold'' 24,
          setFillColor WHITE,
          at_y (\<lambda>y. drawString ML' y ''The Plan''),
          dec_y 22,
          setFont ''Courier'' 10,
          setFillColor GRAY,
          at_y (\<lambda>y. drawString ML' y
                  (''A phased approach for '' @ name @ [CHR 0x27] @ ''s '' @ field @ '' business'')),
          dec_y 28,
          phases_loop phases,
          showPage]"

definition reasons :: "(string \<times> string \<times> color) list" where
  "reasons =
     [(''We Build Systems, Not Websites'',
       ''Most agencies hand you a website and disappear. We build the AI agents, automations, and workflows that actually grow your business.'',
       GREEN),
      (''AI-First Approach'',
       ''Every solution leverages AI from the ground up. Not bolted on '' @ EM_DASH @ '' built into the core of how your business operates.'',
       CYAN),
      (''Results in Weeks, Not Months'',
       ''Our phased approach means measurable results within the first 2 weeks. No 6-month timelines with nothing to show.'',
       ORANGE),
      (''Everything Under One Roof'',
       ''AI agents, workflow automation, websites, ads, content systems, dashboards '' @ EM_DASH @ '' all from one team that understands how it connects.'',
       PINK),
      (''You Own Everything'',
       ''No vendor lock-in. Everything we build, you own. If you ever want to bring it in-house, you can.'',
       YELLOW)]"

definition reason_card_h :: "string \<Rightarrow> rat" where
  \<comment> \<open>\<^verbatim>\<open>card_h = 30 + len(desc_lines) * 11 + 10\<close>\<close>
  "reason_card_h desc = 30 + of_nat (length (simpleSplit desc ''Courier'' 8 (CW - 30))) * 11 + 10"

definition reason_card :: "string \<times> string \<times> color \<Rightarrow> state \<Rightarrow> state" where
  \<comment> \<open>the body of the loop, after the check\<close>
  "reason_card = (\<lambda>(title, desc, color).
     (let desc_lines = simpleSplit desc ''Courier'' 8 (CW - 30);
          card_h = reason_card_h desc
      in run [at_y (\<lambda>y. dashed_card ML' (y - card_h) CW card_h color),
              at_y (\<lambda>y. color_bar (ML' + 10) (y - 10) color 30 3),
              setFont ''Courier-Bold'' 9,
              setFillColor WHITE,
              at_y (\<lambda>y. drawString (ML' + 14) (y - 24) title),
              setFont ''Courier'' 8,
              setFillColor GRAY_LIGHT,
              at_y (\<lambda>y. fold (\<lambda>(i, line). drawString (ML' + 14) (y - 38 - of_nat i * 11) line)
                              (enumerate 0 desc_lines)),
              dec_y (card_h + 10)]))"

fun reasons_loop :: "(string \<times> string \<times> color) list \<Rightarrow> state \<Rightarrow> state" where
  \<comment> \<open>\<^verbatim>\<open>for title, desc, color in reasons: ... if y - card_h < 60: break ...\<close>\<close>
  "reasons_loop [] s = s"
| "reasons_loop ((title, desc, color) # rest) s =
     (if cursor s - reason_card_h desc < 60 then s
      else reasons_loop rest (reason_card (title, desc, color) s))"

definition page5 :: "state \<Rightarrow> state" where
  \<comment> \<open>PAGE 5: WHY US\<close>
  "page5 =
     run [bg,
          with_result (header 5 total_pages) assign_y,
          footer,
          at_y (\<lambda>y. ignore_result (badge ML' y ''WHY US'' PURPLE)),
          dec_y 46,
          setFont ''Courier-Bold'' 24,
          setFillColor WHITE,
          at_y (\<lambda>y. drawString ML' y ''Built Different''),
          dec_y 22,
          setFont ''Courier'' 10,
          setFillColor GRAY,
          at_y (\<lambda>y. drawString ML' y ''What makes Blok Blok Studio different''),
          dec_y 28,
          reasons_loop reasons,
          showPage]"

definition page6 :: "string \<Rightarrow> state \<Rightarrow> state" where
  \<comment> \<open>PAGE 6: CTA\<close>
  "page6 field =
     (let logo_w = 160;
          btn_w = 300;
          btn_h = 42;
          btn_x = (W - btn_w) / 2
      in run [bg,
              with_result (header 6 total_pages) assign_y,
              footer,
              at_y (\<lambda>y. with_result (draw_logo ((W - logo_w) / 2) (y - logo_w * LOGO_ASPECT - 10) logo_w)
                            (\<lambda>logo_h. dec_y (logo_h + 50))),
              setFont ''Courier-Bold'' 20,
              setFillColor WHITE,
              at_y (\<lambda>y. drawCentredString (W / 2) y ''Ready to Build''),
              dec_y 34,
              setFont ''Courier-Bold'' 26,
              setFillColor GREEN,
              at_y (\<lambda>y. drawCentredString (W / 2) y ''Systems That Scale?''),
              dec_y 24,
              setFont ''Courier'' 10,
              setFillColor GRAY,
              at_y (\<lambda>y. drawCentredString (W / 2) y
                      (''Let's talk about what's possible for your '' @ field @ '' business.'')),
              dec_y 30,
              setStrokeColor GREEN,
              setLineWidth 2,
              at_y (\<lambda>y. line (W / 2 - 50) y (W / 2 + 50) y),
              dec_y 35,
              setFillColor GREEN,
              at_y (\<lambda>y. roundRect btn_x (y - btn_h) btn_w btn_h 4 1 0),
              setFont ''Courier-Bold'' 12,
              setFillColor BLACK,
              at_y (\<lambda>y. drawCentredString (W / 2) (y - 18) ''BOOK YOUR FREE DISCOVERY CALL''),
              setFont ''Courier'' 9,
              at_y (\<lambda>y. drawCentredString (W / 2) (y - 32) ''cal.com/chasehaynes/discovery''),
              dec_y (btn_h + 14),
              setFillColor BLACK,
              setStrokeColor GRAY_DIM,
              setLineWidth 1,
              at_y (\<lambda>y. roundRect btn_x (y - btn_h) btn_w btn_h 4 1 1),
              setFont ''Courier-Bold'' 12,
              setFillColor WHITE,
              at_y (\<lambda>y. drawCentredString (W / 2) (y - 18) ''VISIT BLOK BLOK STUDIO''),
              setFont ''Courier'' 9,
              setFillColor GRAY,
              at_y (\<lambda>y. drawCentredString (W / 2) (y - 32) ''blokblokstudio.com''),
              dec_y (btn_h + 14),
              setFillColor BLACK,
              setStrokeColor GRAY_DIM,
              at_y (\<lambda>y. roundRect btn_x (y - btn_h) btn_w btn_h 4 1 1),
              setFont ''Courier-Bold'' 12,
              setFillColor WHITE,
              at_y (\<lambda>y. drawCentredString (W / 2) (y - 18) ''FOLLOW ON INSTAGRAM''),
              setFont ''Courier'' 9,
              setFillColor GRAY,
              at_y (\<lambda>y. drawCentredString (W / 2) (y - 32) ''@haynes2va''),
              dec_y (btn_h + 24),
              setFont ''Courier-Bold'' 10,
              setFillColor GREEN,
              at_y (\<lambda>y. drawCentredString (W / 2) y ''Let's build something that works for you.''),
              showPage])"

section \<open>Request values and \<^verbatim>\<open>generate_pdf\<close>\<close>

text \<open>
  The values \<^verbatim>\<open>json.loads\<close> returns. An object is the list of the items of the Python
  dict; a float is the rational it stands for.
\<close>

datatype json =
    JNull
  | JBool bool
  | JInt int
  | JFloat rat
  | JStr string
  | JArr "json list"
  | JObj "(string \<times> json) list"

datatype exn = AttributeError | JSONDecodeError | OSError

fun truthy :: "json \<Rightarrow> bool" where
  \<comment> \<open>Python's truth value of an object, as \<^verbatim>\<open>all([...])\<close> tests it\<close>
  "truthy JNull = False"
| "truthy (JBool b) = b"
| "truthy (JInt n) = (n \<noteq> 0)"
| "truthy (JFloat x) = (x \<noteq> 0)"
| "truthy (JStr s) = (s \<noteq> [])"
| "truthy (JArr xs) = (xs \<noteq> [])"
| "truthy (JObj kvs) = (kvs \<noteq> [])"

definition format_value :: "(json \<Rightarrow> string) \<Rightarrow> json \<Rightarrow> string" where
  \<comment> \<open>\<^verbatim>\<open>{problem}\<close> in an f-string: a str is inserted as it is, any other object through
      Python's \<^verbatim>\<open>str()\<close>, which is the parameter \<open>py_str\<close>\<close>
  "format_value py_str v = (case v of JStr s \<Rightarrow> s | _ \<Rightarrow> py_str v)"

definition generate_pdf_body :: "string \<Rightarrow> string \<Rightarrow> string \<Rightarrow> string \<Rightarrow> state" where
  \<comment> \<open>the body of \<^verbatim>\<open>generate_pdf\<close> for a \<^verbatim>\<open>name\<close> and a \<^verbatim>\<open>field\<close> that are strings, and the
      text of \<^verbatim>\<open>{problem}\<close>; \<^verbatim>\<open>email\<close> and \<^verbatim>\<open>website\<close> are never read\<close>
  "generate_pdf_body name field problem output =
     run [page1 name field,
          page2 field problem,
          page3 field,
          page4 name field,
          page5,
          page6 field,
          save] (Canvas output letter)"

definition generate_pdf ::
  "(json \<Rightarrow> string) \<Rightarrow> json \<Rightarrow> json \<Rightarrow> json \<Rightarrow> json \<Rightarrow> json \<Rightarrow> string \<Rightarrow> exn + state" where
  \<comment> \<open>The arguments are whatever objects the handler passes. \<^verbatim>\<open>name.upper()\<close> raises
      AttributeError for a \<^verbatim>\<open>name\<close> that is no str, and so does the text measurement of
      \<^verbatim>\<open>drawCentredString(W / 2, y, field)\<close> for a \<^verbatim>\<open>field\<close> that is no str, both on page 1;
      \<^verbatim>\<open>problem\<close> is only formatted.\<close>
  "generate_pdf py_str name email field website problem output =
     (case name of
        JStr name' \<Rightarrow>
          (case field of
             JStr field' \<Rightarrow> Inr (generate_pdf_body name' field' (format_value py_str problem) output)
           | _ \<Rightarrow> Inl AttributeError)
      | _ \<Rightarrow> Inl AttributeError)"

section \<open>The request handler\<close>

text \<open>
  What the handler does to the world is the list of its calls, in order, and the set of
  temporary files that exist. The body written to the client is \<^verbatim>\<open>{'error': msg}\<close> or
  \<^verbatim>\<open>{'pdf': ...}\<close> with the base64 text of the bytes of the document.

  The world can make one call of a run raise: creating the temporary file, writing the
  document in \<^verbatim>\<open>c.save()\<close>, reading the file back, or one of the four calls that send
  the response (\<open>SendFault k\<close>: the call number \<open>k\<close>, from 0). \<^verbatim>\<open>os.unlink\<close> of the file
  the handler created itself does not raise.
\<close>

datatype body = ErrorBody string | PdfBody "page list"

datatype event =
    Send_response nat
  | Send_header string string
  | End_headers
  | Wfile_write body
  | NamedTemporaryFile string
  | Generate_pdf string
  | Open_read string
  | Unlink string

datatype fault = NoFault | TempFault | SaveFault | ReadFault | SendFault nat

record env =
  tmp_path :: string
  fault :: fault

record result =
  events :: "event list"
  files :: "string set"
  outcome :: "exn option"

definition dict_get :: "(string \<times> json) list \<Rightarrow> string \<Rightarrow> json \<Rightarrow> json" where
  \<comment> \<open>\<^verbatim>\<open>body.get(key, default)\<close>\<close>
  "dict_get kvs key dflt = (case map_of kvs key of None \<Rightarrow> dflt | Some v \<Rightarrow> v)"

definition send_json :: "env \<Rightarrow> nat \<Rightarrow> body \<Rightarrow> event list \<times> exn option" where
  \<comment> \<open>\<^verbatim>\<open>send_response; send_header; end_headers; wfile.write\<close>\<close>
  "send_json e status b =
     (let calls = [Send_response status,
                   Send_header ''Content-Type'' ''application/json'',
                   End_headers,
                   Wfile_write b]
      in case fault e of
           SendFault k \<Rightarrow> if k < length calls then (take k calls, Some OSError) else (calls, None)
         | _ \<Rightarrow> (calls, None))"

definition try_block ::
  "(json \<Rightarrow> string) \<Rightarrow> env \<Rightarrow> json \<Rightarrow> json \<Rightarrow> json \<Rightarrow> json \<Rightarrow> json \<Rightarrow> event list \<times> exn option" where
  \<comment> \<open>the body of \<^verbatim>\<open>try:\<close>\<close>
  "try_block py_str e name email field website problem =
     (case generate_pdf py_str name email field website problem (tmp_path e) of
        Inl ex \<Rightarrow> ([Generate_pdf (tmp_path e)], Some ex)
      | Inr doc \<Rightarrow>
          if fault e = SaveFault then ([Generate_pdf (tmp_path e)], Some OSError)
          else if fault e = ReadFault then ([Generate_pdf (tmp_path e), Open_read (tmp_path e)], Some OSError)
          else (case send_json e 200 (PdfBody (pages doc)) of
                  (evs, out) \<Rightarrow> ([Generate_pdf (tmp_path e), Open_read (tmp_path e)] @ evs, out)))"

definition do_POST :: "(json \<Rightarrow> string) \<Rightarrow> env \<Rightarrow> string set \<Rightarrow> exn + json \<Rightarrow> result" where
  \<comment> \<open>\<open>parsed\<close> is what \<^verbatim>\<open>json.loads(self.rfile.read(content_length))\<close> gives: a value, or the
      exception it raises. \<open>fs\<close> is the set of temporary files before the call.\<close>
  "do_POST py_str e fs parsed =
     (case parsed of
        Inl ex \<Rightarrow> \<lparr>events = [], files = fs, outcome = Some ex\<rparr>
      | Inr (JObj kvs) \<Rightarrow>
          (let name = dict_get kvs ''name'' (JStr '''');
               email = dict_get kvs ''email'' (JStr '''');
               field = dict_get kvs ''field'' (JStr '''');
               website = dict_get kvs ''website'' (JStr '''');
               problem = dict_get kvs ''problem'' (JStr '''')
           in if \<not> list_all truthy [name, email, field, problem]
              then (case send_json e 400 (ErrorBody ''Missing required fields'') of
                      (evs, out) \<Rightarrow> \<lparr>events = evs, files = fs, outcome = out\<rparr>)
              else if fault e = TempFault
              then \<lparr>events = [], files = fs, outcome = Some OSError\<rparr>
              else (case try_block py_str e name email field website problem of
                      (evs, out) \<Rightarrow>
                        \<lparr>events = NamedTemporaryFile (tmp_path e) # evs @ [Unlink (tmp_path e)],
                         files = insert (tmp_path e) fs - {tmp_path e},
                         outcome = out\<rparr>))
      | Inr _ \<Rightarrow> \<lparr>events = [], files = fs, outcome = Some AttributeError\<rparr>)"

section \<open>Notions used in the statements\<close>




definition required :: "string list" where
  "required = [''name'', ''email'', ''field'', ''problem'']"

definition bad_request :: "event list" where
  \<comment> \<open>HTTP 400 with the JSON body \<^verbatim>\<open>{"error": "Missing required fields"}\<close>\<close>
  "bad_request =
     [Send_response 400,
      Send_header ''Content-Type'' ''application/json'',
      End_headers,
      Wfile_write (ErrorBody ''Missing required fields'')]"

definition sends :: "env \<Rightarrow> bool" where
  \<comment> \<open>no call that sends the response raises\<close>
  "sends e = (case fault e of SendFault k \<Rightarrow> False | _ \<Rightarrow> True)"

text \<open>Kinds of statements, for the proofs: what a piece of the program may change.\<close>

definition draws :: "(state \<Rightarrow> state) \<Rightarrow> bool" where
  \<comment> \<open>only adds calls to the current page\<close>
  "draws f = (\<forall>s. \<exists>ks. f s = s\<lparr>page_code := page_code s @ ks\<rparr>)"

definition assigns :: "(state \<Rightarrow> state) \<Rightarrow> bool" where
  \<comment> \<open>adds calls to the current page, then assigns \<^verbatim>\<open>y\<close>\<close>
  "assigns f = (\<forall>s. \<exists>v ks. f s = assign_y v (s\<lparr>page_code := page_code s @ ks\<rparr>))"

definition descends :: "(state \<Rightarrow> state) \<Rightarrow> bool" where
  \<comment> \<open>adds calls to the current page and moves \<^verbatim>\<open>y\<close> down: the values it assigns are
      non-increasing and lie between the old and the new value of \<^verbatim>\<open>y\<close>\<close>
  "descends f =
     (\<forall>s. pages (f s) = pages s \<and> pagesize (f s) = pagesize s \<and> trails (f s) = trails s \<and>
          (\<exists>ks. page_code (f s) = page_code s @ ks) \<and>
          cursor (f s) \<le> cursor s \<and>
          (\<exists>ys. trail (f s) = trail s @ ys \<and> sorted_wrt (\<ge>) ys \<and>
                (\<forall>v \<in> set ys. cursor (f s) \<le> v \<and> v \<le> cursor s)))"

definition opens :: "(state \<Rightarrow> state) \<Rightarrow> bool" where
  \<comment> \<open>the beginning of a page, from its first statement\<close>
  "opens f =
     (\<forall>s. trail s = [] \<longrightarrow>
          pages (f s) = pages s \<and> pagesize (f s) = pagesize s \<and> trails (f s) = trails s \<and>
          sorted_wrt (\<ge>) (trail (f s)) \<and> (\<forall>v \<in> set (trail (f s)). cursor (f s) \<le> v))"

definition closes_page :: "(state \<Rightarrow> state) \<Rightarrow> bool" where
  \<comment> \<open>a whole page, from its first statement to \<^verbatim>\<open>showPage\<close>\<close>
  "closes_page f =
     (\<forall>s. trail s = [] \<longrightarrow>
          trail (f s) = [] \<and> page_code (f s) = [] \<and> pagesize (f s) = pagesize s \<and>
          (\<exists>ks. pages (f s) = pages s @ [(pagesize s, ks)]) \<and>
          (\<exists>t. trails (f s) = trails s @ [t] \<and> sorted_wrt (\<ge>) t))"

definition paged :: "nat \<Rightarrow> state \<Rightarrow> bool" where
  \<comment> \<open>\<open>n\<close> pages are closed and none is open\<close>
  "paged n s =
     (trail s = [] \<and> page_code s = [] \<and> pagesize s = letter \<and>
      map fst (pages s) = replicate n letter \<and>
      length (trails s) = n \<and> list_all (sorted_wrt (\<ge>)) (trails s))"

text \<open>Notions for the proofs about the word wrap.\<close>

definition wf_word :: "string \<Rightarrow> bool" where
  "wf_word w = (w \<noteq> [] \<and> (\<forall>c \<in> set w. \<not> isspace c))"

text \<open>
  A line being filled, \<open>row\<close> with width \<open>w\<close>, is consistent when wrapping its words from
  an empty line leads to it.
\<close>

definition filling :: "(string \<Rightarrow> rat) \<Rightarrow> rat \<Rightarrow> string list \<Rightarrow> rat \<Rightarrow> bool" where
  "filling SW mW row w =
     (\<forall>ts. wrap_words SW mW [] (- SW '' '') (row @ ts) = wrap_words SW mW row w ts)"


text \<open>
  The scanner of \<open>str_split\<close> in two parts: the words it has closed, and the word it is
  still reading.
\<close>

fun closed_words :: "string \<Rightarrow> string \<Rightarrow> string list" where
  "closed_words cur [] = []"
| "closed_words cur (c # cs) =
     (if isspace c then (if cur = [] then closed_words [] cs else cur # closed_words [] cs)
      else closed_words (cur @ [c]) cs)"

fun open_word :: "string \<Rightarrow> string \<Rightarrow> string" where
  "open_word cur [] = cur"
| "open_word cur (c # cs) = (if isspace c then open_word [] cs else open_word (cur @ [c]) cs)"

section \<open>Proofs: what the statements of the program change\<close>

subsection \<open>Sequencing\<close>

lemma run_Nil [simp]: "run [] s = s"
  by (simp add: run_def)

lemma run_Cons [simp]: "run (f # fs) s = run fs (f s)"
  by (simp add: run_def)

lemma run_append: "run (fs @ gs) s = run gs (run fs s)"
  by (simp add: run_def)

subsection \<open>Statements that only draw\<close>

lemma draws_emit [simp]: "draws (emit k)"
  unfolding draws_def emit_def by blast

lemma draws_comp: "draws f \<Longrightarrow> draws g \<Longrightarrow> draws (\<lambda>s. g (f s))"
  unfolding draws_def
proof
  fix s
  assume f: "\<forall>s. \<exists>ks. f s = s\<lparr>page_code := page_code s @ ks\<rparr>"
    and g: "\<forall>s. \<exists>ks. g s = s\<lparr>page_code := page_code s @ ks\<rparr>"
  from f obtain ks where 1: "f s = s\<lparr>page_code := page_code s @ ks\<rparr>" by blast
  from g obtain ks' where 2: "g (f s) = (f s)\<lparr>page_code := page_code (f s) @ ks'\<rparr>" by blast
  have "g (f s) = s\<lparr>page_code := page_code s @ (ks @ ks')\<rparr>"
    using 2 by (simp add: 1)
  then show "\<exists>ks. g (f s) = s\<lparr>page_code := page_code s @ ks\<rparr>" by blast
qed

lemma draws_id: "draws (\<lambda>s. s)"
  unfolding draws_def
proof
  fix s :: state
  have "s = s\<lparr>page_code := page_code s @ []\<rparr>" by simp
  then show "\<exists>ks. s = s\<lparr>page_code := page_code s @ ks\<rparr>" by blast
qed

lemma draws_run [simp]: "list_all draws fs \<Longrightarrow> draws (run fs)"
proof (induction fs)
  case Nil
  show ?case using draws_id by (simp add: run_def)
next
  case (Cons f fs)
  then have "draws f" "draws (run fs)" by simp_all
  then have "draws (\<lambda>s. run fs (f s))" by (rule draws_comp)
  then show ?case by (simp add: draws_def)
qed

lemma draws_at_y [simp]: "(\<And>y. draws (f y)) \<Longrightarrow> draws (at_y f)"
  unfolding draws_def at_y_def by blast

lemma draws_fold: "(\<And>x. draws (f x)) \<Longrightarrow> draws (fold f xs)"
proof (induction xs)
  case Nil
  show ?case using draws_id by (simp add: id_def)
next
  case (Cons x xs)
  then have "draws (f x)" "draws (fold f xs)" by simp_all
  then have "draws (\<lambda>s. fold f xs (f x s))" by (rule draws_comp)
  then show ?case by (simp add: draws_def)
qed

lemma draws_lines [simp]: "draws (fold (\<lambda>(i, line). emit (g i line)) xs)"
  by (rule draws_fold) (simp split: prod.split)

lemma draws_bg [simp]: "draws bg"
  by (simp add: bg_def)

lemma draws_footer [simp]: "draws footer"
  by (simp add: footer_def)

lemma draws_dashed_card [simp]: "draws (dashed_card x y0 w h c)"
  by (simp add: dashed_card_def)

lemma draws_color_bar [simp]: "draws (color_bar x y0 c w h)"
  by (simp add: color_bar_def)

lemma ignore_draw_logo:
  "ignore_result (draw_logo x y0 w) =
     run [setFont ''Courier-Bold'' 14, setFillColor GREEN,
          drawString x (y0 + w * LOGO_ASPECT / 2) ''blok blok studio'']"
  by (simp add: ignore_result_def draw_logo_def fun_eq_iff Let_def)

lemma draws_draw_logo [simp]: "draws (ignore_result (draw_logo x y0 w))"
  by (simp add: ignore_draw_logo)

lemma ignore_badge:
  "ignore_result (badge x y0 text c) =
     run [setFont ''Courier-Bold'' 8, setFillColor c,
          roundRect x (y0 - 18) (stringWidth text ''Courier-Bold'' 8 + 14) 18 3 1 0,
          setFillColor BLACK, drawString (x + 7) (y0 - 13) text]"
  by (simp add: ignore_result_def badge_def fun_eq_iff Let_def)

lemma draws_badge [simp]: "draws (ignore_result (badge x y0 text c))"
  by (simp add: ignore_badge)

lemma ignore_header:
  "ignore_result (header pg t) =
     run [setFillColor GREEN, rect 0 (H - 5) W 5 1 0,
          ignore_result (draw_logo ML' (H - 28 - 80 * LOGO_ASPECT) 80),
          setFont ''Courier'' 10, setFillColor GRAY,
          drawRightString MR (H - 48) (fmt02d pg @ '' / '' @ fmt02d t),
          setStrokeColor GREEN, setLineWidth 1,
          line ML' (H - 28 - 80 * LOGO_ASPECT - 8) MR (H - 28 - 80 * LOGO_ASPECT - 8)]"
  by (simp add: ignore_result_def header_def fun_eq_iff Let_def)

lemma draws_header [simp]: "draws (ignore_result (header pg t))"
  by (simp add: ignore_header)

lemma fst_header [simp]: "fst (header pg t s) = 18442 / 27"
  by (simp add: header_def Let_def H_def letter_def LOGO_ASPECT_def)

lemma draws_frame:
  assumes "draws f"
  shows "pages (f s) = pages s" "pagesize (f s) = pagesize s" "trails (f s) = trails s"
    "trail (f s) = trail s" "cursor (f s) = cursor s" "filename (f s) = filename s"
proof -
  from assms obtain ks where "f s = s\<lparr>page_code := page_code s @ ks\<rparr>"
    unfolding draws_def by blast
  then show "pages (f s) = pages s" "pagesize (f s) = pagesize s" "trails (f s) = trails s"
    "trail (f s) = trail s" "cursor (f s) = cursor s" "filename (f s) = filename s"
    by simp_all
qed

subsection \<open>Statements that move the cursor down\<close>

lemma draws_descends: "draws f \<Longrightarrow> descends f"
  unfolding descends_def
proof
  fix s
  assume "draws f"
  then obtain ks where "f s = s\<lparr>page_code := page_code s @ ks\<rparr>"
    unfolding draws_def by blast
  then show "pages (f s) = pages s \<and> pagesize (f s) = pagesize s \<and> trails (f s) = trails s \<and>
          (\<exists>ks. page_code (f s) = page_code s @ ks) \<and>
          cursor (f s) \<le> cursor s \<and>
          (\<exists>ys. trail (f s) = trail s @ ys \<and> sorted_wrt (\<ge>) ys \<and>
                (\<forall>v \<in> set ys. cursor (f s) \<le> v \<and> v \<le> cursor s))"
    by simp
qed

lemma descends_dec_y [simp]: "0 \<le> d \<Longrightarrow> descends (dec_y d)"
  by (simp add: descends_def dec_y_def assign_y_def)

lemma descends_comp:
  assumes f: "descends f" and g: "descends g"
  shows "descends (\<lambda>s. g (f s))"
  unfolding descends_def
proof
  fix s
  from f obtain ks ys where
    1: "pages (f s) = pages s" "pagesize (f s) = pagesize s" "trails (f s) = trails s"
      "page_code (f s) = page_code s @ ks" "cursor (f s) \<le> cursor s"
      "trail (f s) = trail s @ ys" "sorted_wrt (\<ge>) ys"
      "\<forall>v \<in> set ys. cursor (f s) \<le> v \<and> v \<le> cursor s"
    unfolding descends_def by blast
  from g obtain ks' ys' where
    2: "pages (g (f s)) = pages (f s)" "pagesize (g (f s)) = pagesize (f s)"
      "trails (g (f s)) = trails (f s)"
      "page_code (g (f s)) = page_code (f s) @ ks'" "cursor (g (f s)) \<le> cursor (f s)"
      "trail (g (f s)) = trail (f s) @ ys'" "sorted_wrt (\<ge>) ys'"
      "\<forall>v \<in> set ys'. cursor (g (f s)) \<le> v \<and> v \<le> cursor (f s)"
    unfolding descends_def by blast
  have a: "page_code (g (f s)) = page_code s @ (ks @ ks')"
    using 1 2 by simp
  have b: "trail (g (f s)) = trail s @ (ys @ ys')"
    using 1 2 by simp
  have c: "sorted_wrt (\<ge>) (ys @ ys')"
    using 1 2 by (fastforce simp: sorted_wrt_append)
  have d: "\<forall>v \<in> set (ys @ ys'). cursor (g (f s)) \<le> v \<and> v \<le> cursor s"
    using 1 2 by fastforce
  show "pages (g (f s)) = pages s \<and> pagesize (g (f s)) = pagesize s \<and>
        trails (g (f s)) = trails s \<and>
        (\<exists>ks. page_code (g (f s)) = page_code s @ ks) \<and>
        cursor (g (f s)) \<le> cursor s \<and>
        (\<exists>ys. trail (g (f s)) = trail s @ ys \<and> sorted_wrt (\<ge>) ys \<and>
              (\<forall>v \<in> set ys. cursor (g (f s)) \<le> v \<and> v \<le> cursor s))"
    using 1 2 a b c d by (metis order_trans)
qed

lemma descends_run [simp]: "list_all descends fs \<Longrightarrow> descends (run fs)"
proof (induction fs)
  case Nil
  have "descends (\<lambda>s. s)" using draws_id by (rule draws_descends)
  then show ?case by (simp add: descends_def)
next
  case (Cons f fs)
  then have "descends f" "descends (run fs)" by simp_all
  then have "descends (\<lambda>s. run fs (f s))" by (rule descends_comp)
  then show ?case by (simp add: descends_def)
qed

lemma descends_at_y [simp]: "(\<And>y. descends (f y)) \<Longrightarrow> descends (at_y f)"
  unfolding descends_def at_y_def by blast

lemma descends_emit [simp]: "descends (emit k)"
  by (simp add: draws_descends)

lemma descends_draws [simp]: "draws f \<Longrightarrow> descends f"
  by (rule draws_descends)

lemma card_heights_nonneg [simp]:
  "0 \<le> problem_card_h p" "0 \<le> stat_card_h d" "0 \<le> opp_card_h d"
  "0 \<le> phase_card_h d" "0 \<le> reason_card_h d"
  by (simp_all add: problem_card_h_def stat_card_h_def opp_card_h_def phase_card_h_def
      reason_card_h_def)

lemma descends_problem_card [simp]: "descends (problem_card p)"
  by (simp add: problem_card_def Let_def)

lemma descends_stat_card [simp]: "descends (stat_card c)"
  by (simp add: stat_card_def Let_def split: prod.split)

lemma descends_opp_card [simp]: "descends (opp_card c)"
  by (simp add: opp_card_def Let_def split: prod.split)

lemma descends_phase_card [simp]: "descends (phase_card c)"
  by (simp add: phase_card_def Let_def split: prod.split)

lemma descends_reason_card [simp]: "descends (reason_card c)"
  by (simp add: reason_card_def Let_def split: prod.split)

lemma descends_pointwise:
  assumes "\<And>s. \<exists>g. descends g \<and> f s = g s"
  shows "descends f"
  unfolding descends_def
proof
  fix s
  from assms obtain g where g: "descends g" "f s = g s" by blast
  from g(1) have "pages (g s) = pages s \<and> pagesize (g s) = pagesize s \<and> trails (g s) = trails s \<and>
          (\<exists>ks. page_code (g s) = page_code s @ ks) \<and>
          cursor (g s) \<le> cursor s \<and>
          (\<exists>ys. trail (g s) = trail s @ ys \<and> sorted_wrt (\<ge>) ys \<and>
                (\<forall>v \<in> set ys. cursor (g s) \<le> v \<and> v \<le> cursor s))"
    unfolding descends_def by blast
  then show "pages (f s) = pages s \<and> pagesize (f s) = pagesize s \<and> trails (f s) = trails s \<and>
          (\<exists>ks. page_code (f s) = page_code s @ ks) \<and>
          cursor (f s) \<le> cursor s \<and>
          (\<exists>ys. trail (f s) = trail s @ ys \<and> sorted_wrt (\<ge>) ys \<and>
                (\<forall>v \<in> set ys. cursor (f s) \<le> v \<and> v \<le> cursor s))"
    by (simp add: g(2))
qed


lemma descends_id [simp]: "descends (\<lambda>s. s)"
  using draws_id by (rule draws_descends)

text \<open>A loop over cards that breaks at the first card that does not fit.\<close>

lemma loop_descends:
  assumes nil: "\<And>s. loop [] s = s"
    and cons: "\<And>c rest s. loop (c # rest) s =
                 (if cursor s - h c < 60 then s else loop rest (body c s))"
    and body: "\<And>c. descends (body c)"
  shows "descends (loop cards)"
proof (induction cards)
  case Nil
  have "loop [] = (\<lambda>s. s)" by (simp add: fun_eq_iff nil)
  then show ?case by simp
next
  case (Cons c cards)
  show ?case
  proof (rule descends_pointwise)
    fix s
    show "\<exists>g. descends g \<and> loop (c # cards) s = g s"
    proof (cases "cursor s - h c < 60")
      case True
      then have "loop (c # cards) s = (\<lambda>s. s) s" by (simp add: cons)
      then show ?thesis using descends_id by blast
    next
      case False
      then have "loop (c # cards) s = (\<lambda>s. loop cards (body c s)) s"
        by (simp add: cons)
      moreover have "descends (\<lambda>s. loop cards (body c s))"
        using body Cons.IH by (rule descends_comp)
      ultimately show ?thesis by blast
    qed
  qed
qed

lemma descends_stats_loop [simp]: "descends (stats_loop cards)"
  by (rule loop_descends [where h = "\<lambda>(v, d, src, col). stat_card_h d" and body = stat_card])
    auto

lemma descends_opps_loop [simp]: "descends (opps_loop cards)"
  by (rule loop_descends [where h = "\<lambda>(t, d, col). opp_card_h d" and body = opp_card])
    auto

lemma descends_phases_loop [simp]: "descends (phases_loop cards)"
  by (rule loop_descends [where h = "\<lambda>(g, t, d, col). phase_card_h d" and body = phase_card])
    auto

lemma descends_reasons_loop [simp]: "descends (reasons_loop cards)"
  by (rule loop_descends [where h = "\<lambda>(t, d, col). reason_card_h d" and body = reason_card])
    auto

lemma with_logo_dec:
  "with_result (draw_logo x y0 w) (\<lambda>logo_h. dec_y (logo_h + d)) =
     run [ignore_result (draw_logo x y0 w), dec_y (w * LOGO_ASPECT + d)]"
  by (simp add: with_result_def ignore_result_def draw_logo_def fun_eq_iff Let_def)

lemma descends_logo_dec [simp]:
  "0 \<le> w * LOGO_ASPECT + d \<Longrightarrow>
     descends (with_result (draw_logo x y0 w) (\<lambda>logo_h. dec_y (logo_h + d)))"
  by (simp add: with_logo_dec)

subsection \<open>Pages\<close>

lemma assigns_assign_y [simp]: "assigns (assign_y v)"
  unfolding assigns_def
proof
  fix s :: state
  have "assign_y v s = assign_y v (s\<lparr>page_code := page_code s @ []\<rparr>)" by simp
  then show "\<exists>v' ks. assign_y v s = assign_y v' (s\<lparr>page_code := page_code s @ ks\<rparr>)" by blast
qed

lemma assigns_header [simp]: "assigns (with_result (header pg t) assign_y)"
  unfolding assigns_def
proof
  fix s :: state
  obtain ks where "ignore_result (header pg t) s = s\<lparr>page_code := page_code s @ ks\<rparr>"
    using draws_header [of pg t] unfolding draws_def by blast
  then have 1: "snd (header pg t s) = s\<lparr>page_code := page_code s @ ks\<rparr>"
    by (simp add: ignore_result_def)
  have "with_result (header pg t) assign_y s =
      assign_y (fst (header pg t s)) (snd (header pg t s))"
    by (simp add: with_result_def case_prod_beta del: fst_header)
  then show "\<exists>v ks. with_result (header pg t) assign_y s =
      assign_y v (s\<lparr>page_code := page_code s @ ks\<rparr>)"
    unfolding 1 by blast
qed

lemma opens_start:
  assumes pre: "draws pre" and a: "assigns a"
  shows "opens (\<lambda>s. a (pre s))"
  unfolding opens_def
proof (intro allI impI)
  fix s :: state
  assume e: "trail s = []"
  from pre obtain ks where 1: "pre s = s\<lparr>page_code := page_code s @ ks\<rparr>"
    unfolding draws_def by blast
  from a obtain v ks' where
    2: "a (pre s) = assign_y v ((pre s)\<lparr>page_code := page_code (pre s) @ ks'\<rparr>)"
    unfolding assigns_def by blast
  show "pages (a (pre s)) = pages s \<and> pagesize (a (pre s)) = pagesize s \<and>
        trails (a (pre s)) = trails s \<and> sorted_wrt (\<ge>) (trail (a (pre s))) \<and>
        (\<forall>v \<in> set (trail (a (pre s))). cursor (a (pre s)) \<le> v)"
    unfolding 2 unfolding 1 by (simp add: assign_y_def e)
qed

lemma opens_then:
  assumes f: "opens f" and g: "descends g"
  shows "opens (\<lambda>s. g (f s))"
  unfolding opens_def
proof (intro allI impI)
  fix s :: state
  assume e: "trail s = []"
  with f have 1: "pages (f s) = pages s" "pagesize (f s) = pagesize s"
    "trails (f s) = trails s" "sorted_wrt (\<ge>) (trail (f s))"
    "\<forall>v \<in> set (trail (f s)). cursor (f s) \<le> v"
    unfolding opens_def by blast+
  from g obtain ys where
    2: "pages (g (f s)) = pages (f s)" "pagesize (g (f s)) = pagesize (f s)"
      "trails (g (f s)) = trails (f s)" "cursor (g (f s)) \<le> cursor (f s)"
      "trail (g (f s)) = trail (f s) @ ys" "sorted_wrt (\<ge>) ys"
      "\<forall>v \<in> set ys. cursor (g (f s)) \<le> v \<and> v \<le> cursor (f s)"
    unfolding descends_def by blast
  have "sorted_wrt (\<ge>) (trail (f s) @ ys)"
    using 1 2 by (fastforce simp: sorted_wrt_append)
  moreover have "\<forall>v \<in> set (trail (f s) @ ys). cursor (g (f s)) \<le> v"
    using 1 2 by fastforce
  ultimately show "pages (g (f s)) = pages s \<and> pagesize (g (f s)) = pagesize s \<and>
        trails (g (f s)) = trails s \<and> sorted_wrt (\<ge>) (trail (g (f s))) \<and>
        (\<forall>v \<in> set (trail (g (f s))). cursor (g (f s)) \<le> v)"
    using 1 2 by simp
qed

lemma opens_run:
  assumes "k < length fs" "list_all draws (take k fs)" "assigns (fs ! k)"
    "list_all descends (drop (Suc k) fs)"
  shows "opens (run fs)"
proof -
  have fs: "take k fs @ fs ! k # drop (Suc k) fs = fs"
    using assms(1) by (rule id_take_nth_drop [symmetric])
  have "draws (run (take k fs))"
    using assms(2) by (rule draws_run)
  then have 1: "opens (\<lambda>s. (fs ! k) (run (take k fs) s))"
    using assms(3) by (rule opens_start [of "run (take k fs)" "fs ! k"])
  have "descends (run (drop (Suc k) fs))"
    using assms(4) by (rule descends_run)
  with 1 have "opens (\<lambda>s. run (drop (Suc k) fs) ((fs ! k) (run (take k fs) s)))"
    by (rule opens_then [of "\<lambda>s. (fs ! k) (run (take k fs) s)" "run (drop (Suc k) fs)"])
  moreover have "run (take k fs @ fs ! k # drop (Suc k) fs) =
      (\<lambda>s. run (drop (Suc k) fs) ((fs ! k) (run (take k fs) s)))"
    by (simp add: fun_eq_iff run_append)
  ultimately show ?thesis by (simp add: fs)
qed

lemma closes_showPage:
  assumes "opens f"
  shows "closes_page (\<lambda>s. showPage (f s))"
  unfolding closes_page_def
proof (intro allI impI)
  fix s :: state
  assume "trail s = []"
  with assms have "pages (f s) = pages s" "pagesize (f s) = pagesize s"
    "trails (f s) = trails s" "sorted_wrt (\<ge>) (trail (f s))"
    unfolding opens_def by blast+
  then show "trail (showPage (f s)) = [] \<and> page_code (showPage (f s)) = [] \<and>
      pagesize (showPage (f s)) = pagesize s \<and>
      (\<exists>ks. pages (showPage (f s)) = pages s @ [(pagesize s, ks)]) \<and>
      (\<exists>t. trails (showPage (f s)) = trails s @ [t] \<and> sorted_wrt (\<ge>) t)"
    by (simp add: showPage_def)
qed

lemma closes_run:
  assumes "fs \<noteq> []" "last fs = showPage" "opens (run (butlast fs))"
  shows "closes_page (run fs)"
proof -
  have "butlast fs @ [showPage] = fs"
    using append_butlast_last_id [OF assms(1)] assms(2) by simp
  moreover have "run (butlast fs @ [showPage]) = (\<lambda>s. showPage (run (butlast fs) s))"
    by (simp add: fun_eq_iff run_append)
  ultimately have "run fs = (\<lambda>s. showPage (run (butlast fs) s))"
    by simp
  then show ?thesis using closes_showPage [OF assms(3)] by simp
qed

lemma closes_page1 [simp]: "closes_page (page1 name field)"
  unfolding page1_def Let_def
  apply (rule closes_run)
    apply simp
   apply simp
  apply (rule opens_run [where k = 4])
     apply simp
    apply simp
   apply simp
  apply (simp add: LOGO_ASPECT_def)
  done

lemma opens_page2_top: "opens (page2_top field problem)"
  unfolding page2_top_def
  by (rule opens_run [where k = 1]) simp_all

lemma closes_page2 [simp]: "closes_page (page2 field problem)"
proof -
  have "opens (\<lambda>s. stats_loop stats (page2_top field problem s))"
    using opens_page2_top descends_stats_loop by (rule opens_then)
  then have "closes_page (\<lambda>s. showPage (stats_loop stats (page2_top field problem s)))"
    by (rule closes_showPage)
  moreover have "page2 field problem =
      (\<lambda>s. showPage (stats_loop stats (page2_top field problem s)))"
    by (simp add: page2_def fun_eq_iff)
  ultimately show ?thesis by simp
qed

lemma closes_page3 [simp]: "closes_page (page3 field)"
  unfolding page3_def
  apply (rule closes_run)
    apply simp
   apply simp
  apply (rule opens_run [where k = 1])
     apply simp_all
  done

lemma closes_page4 [simp]: "closes_page (page4 name field)"
  unfolding page4_def
  apply (rule closes_run)
    apply simp
   apply simp
  apply (rule opens_run [where k = 1])
     apply simp_all
  done

lemma closes_page5 [simp]: "closes_page page5"
  unfolding page5_def
  apply (rule closes_run)
    apply simp
   apply simp
  apply (rule opens_run [where k = 1])
     apply simp_all
  done

lemma closes_page6 [simp]: "closes_page (page6 field)"
  unfolding page6_def Let_def
  apply (rule closes_run)
    apply simp
   apply simp
  apply (rule opens_run [where k = 1])
     apply simp
    apply simp
   apply simp
  apply (simp add: LOGO_ASPECT_def)
  done

lemma paged_step: "closes_page f \<Longrightarrow> paged n s \<Longrightarrow> paged (Suc n) (f s)"
  unfolding closes_page_def paged_def
  by (fastforce simp: replicate_append_same)

lemma paged_Canvas: "paged 0 (Canvas output letter)"
  by (simp add: paged_def Canvas_def)

lemma paged_save: "paged n s \<Longrightarrow> save s = s"
  by (simp add: paged_def save_def)

lemma paged_generate_pdf_body: "paged 6 (generate_pdf_body name field problem output)"
proof -
  let ?s0 = "Canvas output letter"
  let ?s1 = "page1 name field ?s0"
  let ?s2 = "page2 field problem ?s1"
  let ?s3 = "page3 field ?s2"
  let ?s4 = "page4 name field ?s3"
  let ?s5 = "page5 ?s4"
  let ?s6 = "page6 field ?s5"
  have 1: "paged (Suc 0) ?s1"
    by (rule paged_step [OF closes_page1 paged_Canvas])
  have 2: "paged (Suc (Suc 0)) ?s2"
    by (rule paged_step [OF closes_page2 1])
  have 3: "paged (Suc (Suc (Suc 0))) ?s3"
    by (rule paged_step [OF closes_page3 2])
  have 4: "paged (Suc (Suc (Suc (Suc 0)))) ?s4"
    by (rule paged_step [OF closes_page4 3])
  have 5: "paged (Suc (Suc (Suc (Suc (Suc 0))))) ?s5"
    by (rule paged_step [OF closes_page5 4])
  have 6: "paged 6 ?s6"
    using paged_step [OF closes_page6 5] by (simp add: eval_nat_numeral)
  from 6 have "save ?s6 = ?s6" by (rule paged_save)
  then show ?thesis using 6 by (simp add: generate_pdf_body_def)
qed

section \<open>The document\<close>

text \<open>
  C2. For every valid input the document produced by \<^verbatim>\<open>generate_pdf\<close> consists of exactly
  6 pages, each of US-Letter size, 612 by 792 points. (The arguments only have to be
  strings; \<^verbatim>\<open>website\<close> is any value. No page is left open at the end.)
\<close>

theorem generate_pdf_six_letter_pages:
  "generate_pdf py_str (JStr name) (JStr email) (JStr field) website (JStr problem) output =
     Inr (generate_pdf_body name field problem output) \<and>
   length (pages (generate_pdf_body name field problem output)) = 6 \<and>
   map fst (pages (generate_pdf_body name field problem output)) = replicate 6 (612, 792) \<and>
   page_code (generate_pdf_body name field problem output) = []"
proof -
  have "paged 6 (generate_pdf_body name field problem output)"
    by (rule paged_generate_pdf_body)
  then have "map fst (pages (generate_pdf_body name field problem output)) = replicate 6 (612, 792)"
    and "page_code (generate_pdf_body name field problem output) = []"
    by (simp_all add: paged_def letter_def)
  moreover from this(1) have "length (pages (generate_pdf_body name field problem output)) = 6"
    by (metis length_map length_replicate)
  ultimately show ?thesis
    by (simp add: generate_pdf_def format_value_def)
qed

text \<open>
  C7. Within each of the six pages the cursor \<^verbatim>\<open>y\<close> never increases: the values assigned
  to \<^verbatim>\<open>y\<close> between the first statement of a page and its \<^verbatim>\<open>showPage\<close>, in the order of
  the assignments, are non-increasing. There are six such sequences, one per page, and
  every assignment belongs to one of them.
\<close>

theorem cursor_never_increases:
  "length (trails (generate_pdf_body name field problem output)) = 6 \<and>
   list_all (sorted_wrt (\<lambda>a b. b \<le> a)) (trails (generate_pdf_body name field problem output)) \<and>
   trail (generate_pdf_body name field problem output) = []"
  using paged_generate_pdf_body [of name field problem "output"]
  by (simp add: paged_def)

text \<open>
  C9. The website is never rendered: two calls of \<^verbatim>\<open>generate_pdf\<close> that differ only in
  \<^verbatim>\<open>website\<close> give the same result, the same pages with the same calls and texts, or the
  same exception.
\<close>

theorem website_noninterference:
  "generate_pdf py_str name email field website problem output =
   generate_pdf py_str name email field website' problem output"
  by (simp add: generate_pdf_def)

section \<open>Proofs: the request handler\<close>

lemma send_json_sends:
  "sends e \<Longrightarrow> send_json e status b =
     ([Send_response status, Send_header ''Content-Type'' ''application/json'', End_headers,
       Wfile_write b], None)"
  by (simp add: send_json_def sends_def split: fault.splits)

lemma send_json_events:
  "set (fst (send_json e status b)) \<subseteq>
     {Send_response status, Send_header ''Content-Type'' ''application/json'', End_headers,
      Wfile_write b}"
  by (auto simp: send_json_def Let_def split: fault.splits dest!: in_set_takeD)

lemma falsy_required:
  assumes "k \<in> set required" "\<not> truthy (dict_get kvs k (JStr ''''))"
  shows "\<not> list_all truthy [dict_get kvs ''name'' (JStr ''''), dict_get kvs ''email'' (JStr ''''),
            dict_get kvs ''field'' (JStr ''''), dict_get kvs ''problem'' (JStr '''')]"
  using assms by (auto simp: required_def)

lemma do_POST_invalid:
  assumes "\<not> list_all truthy [dict_get kvs ''name'' (JStr ''''), dict_get kvs ''email'' (JStr ''''),
            dict_get kvs ''field'' (JStr ''''), dict_get kvs ''problem'' (JStr '''')]"
  shows "do_POST py_str e fs (Inr (JObj kvs)) =
     \<lparr>events = fst (send_json e 400 (ErrorBody ''Missing required fields'')), files = fs,
      outcome = snd (send_json e 400 (ErrorBody ''Missing required fields''))\<rparr>"
  using assms by (simp add: do_POST_def Let_def case_prod_beta)

lemma do_POST_valid:
  assumes "list_all truthy [dict_get kvs ''name'' (JStr ''''), dict_get kvs ''email'' (JStr ''''),
            dict_get kvs ''field'' (JStr ''''), dict_get kvs ''problem'' (JStr '''')]"
  shows "do_POST py_str e fs (Inr (JObj kvs)) =
     (if fault e = TempFault then \<lparr>events = [], files = fs, outcome = Some OSError\<rparr>
      else \<lparr>events = NamedTemporaryFile (tmp_path e) #
                fst (try_block py_str e (dict_get kvs ''name'' (JStr ''''))
                       (dict_get kvs ''email'' (JStr '''')) (dict_get kvs ''field'' (JStr ''''))
                       (dict_get kvs ''website'' (JStr '''')) (dict_get kvs ''problem'' (JStr '''')))
                @ [Unlink (tmp_path e)],
             files = insert (tmp_path e) fs - {tmp_path e},
             outcome = snd (try_block py_str e (dict_get kvs ''name'' (JStr ''''))
                       (dict_get kvs ''email'' (JStr '''')) (dict_get kvs ''field'' (JStr ''''))
                       (dict_get kvs ''website'' (JStr '''')) (dict_get kvs ''problem'' (JStr '''')))\<rparr>)"
  using assms by (simp add: do_POST_def Let_def case_prod_beta)

lemma try_block_no_400:
  "Send_response 400 \<notin> set (fst (try_block py_str e name email field website problem))"
proof (cases "generate_pdf py_str name email field website problem (tmp_path e)")
  case (Inl ex)
  then show ?thesis by (simp add: try_block_def)
next
  case (Inr doc)
  have "Send_response 400 \<notin> set (fst (send_json e 200 (PdfBody (pages doc))))"
    using send_json_events [of e 200 "PdfBody (pages doc)"] by auto
  then show ?thesis using Inr by (simp add: try_block_def case_prod_beta)
qed

text \<open>
  C1. A request whose JSON object omits one of name, email, field, problem, or binds it to
  the empty string, is answered with HTTP 400 and the body
  \<^verbatim>\<open>{"error": "Missing required fields"}\<close>, provided the connection takes the response;
  whether it does or not, the generator is not invoked and no temporary file is created.
  When the four fields are present with true values, no 400 is sent, whatever the website
  field is, absent or empty.
\<close>

theorem missing_field_bad_request:
  "(k \<in> set required \<and> (map_of kvs k = None \<or> map_of kvs k = Some (JStr '''')) \<longrightarrow>
      (\<forall>p. Generate_pdf p \<notin> set (events (do_POST py_str e fs (Inr (JObj kvs))))) \<and>
      (\<forall>p. NamedTemporaryFile p \<notin> set (events (do_POST py_str e fs (Inr (JObj kvs))))) \<and>
      files (do_POST py_str e fs (Inr (JObj kvs))) = fs \<and>
      (sends e \<longrightarrow> events (do_POST py_str e fs (Inr (JObj kvs))) = bad_request \<and>
                  outcome (do_POST py_str e fs (Inr (JObj kvs))) = None)) \<and>
   ((\<forall>k \<in> set required. \<exists>v. map_of kvs k = Some v \<and> truthy v) \<longrightarrow>
      Send_response 400 \<notin> set (events (do_POST py_str e fs (Inr (JObj kvs)))))"
proof (intro conjI impI)
  assume a: "k \<in> set required \<and> (map_of kvs k = None \<or> map_of kvs k = Some (JStr ''''))"
  then have "\<not> truthy (dict_get kvs k (JStr ''''))"
    by (auto simp: dict_get_def)
  with a have inv: "\<not> list_all truthy [dict_get kvs ''name'' (JStr ''''),
      dict_get kvs ''email'' (JStr ''''), dict_get kvs ''field'' (JStr ''''),
      dict_get kvs ''problem'' (JStr '''')]"
    by (intro falsy_required [of k]) simp_all
  note r = do_POST_invalid [OF inv, of py_str e fs]
  note ev = send_json_events [of e 400 "ErrorBody ''Missing required fields''"]
  show "\<forall>p. Generate_pdf p \<notin> set (events (do_POST py_str e fs (Inr (JObj kvs))))"
    using ev by (auto simp: r)
  show "\<forall>p. NamedTemporaryFile p \<notin> set (events (do_POST py_str e fs (Inr (JObj kvs))))"
    using ev by (auto simp: r)
  show "files (do_POST py_str e fs (Inr (JObj kvs))) = fs"
    by (simp add: r)
  assume "sends e"
  then show "events (do_POST py_str e fs (Inr (JObj kvs))) = bad_request"
    and "outcome (do_POST py_str e fs (Inr (JObj kvs))) = None"
    by (simp_all add: r send_json_sends bad_request_def)
next
  assume "\<forall>k \<in> set required. \<exists>v. map_of kvs k = Some v \<and> truthy v"
  then have "list_all truthy [dict_get kvs ''name'' (JStr ''''),
      dict_get kvs ''email'' (JStr ''''), dict_get kvs ''field'' (JStr ''''),
      dict_get kvs ''problem'' (JStr '''')]"
    by (auto simp: required_def dict_get_def)
  then show "Send_response 400 \<notin> set (events (do_POST py_str e fs (Inr (JObj kvs))))"
    using try_block_no_400 by (simp add: do_POST_valid)
qed

theorem missing_field_bad_request_witness:
  "events (do_POST (\<lambda>v. []) \<lparr>tmp_path = ''/tmp/tmp1.pdf'', fault = NoFault\<rparr> {}
     (Inr (JObj [(''name'', JStr ''''), (''email'', JStr ''a@x.com''),
                 (''field'', JStr ''Plumbing''), (''problem'', JStr ''x'')]))) =
     [Send_response 400, Send_header ''Content-Type'' ''application/json'', End_headers,
      Wfile_write (ErrorBody ''Missing required fields'')] \<and>
   events (do_POST (\<lambda>v. []) \<lparr>tmp_path = ''/tmp/tmp1.pdf'', fault = NoFault\<rparr> {}
     (Inr (JObj [(''email'', JStr ''a@x.com''),
                 (''field'', JStr ''Plumbing''), (''problem'', JStr ''x'')]))) =
     [Send_response 400, Send_header ''Content-Type'' ''application/json'', End_headers,
      Wfile_write (ErrorBody ''Missing required fields'')] \<and>
   Send_response 400 \<notin> set (events (do_POST (\<lambda>v. []) \<lparr>tmp_path = ''/tmp/tmp1.pdf'', fault = NoFault\<rparr> {}
     (Inr (JObj [(''name'', JStr ''Acme Co''), (''email'', JStr ''a@x.com''),
                 (''field'', JStr ''Plumbing''), (''problem'', JStr ''x'')]))))"
  using missing_field_bad_request [of "''name''"
      "[(''name'', JStr ''''), (''email'', JStr ''a@x.com''),
        (''field'', JStr ''Plumbing''), (''problem'', JStr ''x'')]"
      "\<lambda>v. []" "\<lparr>tmp_path = ''/tmp/tmp1.pdf'', fault = NoFault\<rparr>" "{}"]
    missing_field_bad_request [of "''name''"
      "[(''email'', JStr ''a@x.com''),
        (''field'', JStr ''Plumbing''), (''problem'', JStr ''x'')]"
      "\<lambda>v. []" "\<lparr>tmp_path = ''/tmp/tmp1.pdf'', fault = NoFault\<rparr>" "{}"]
    missing_field_bad_request [of "''name''"
      "[(''name'', JStr ''Acme Co''), (''email'', JStr ''a@x.com''),
        (''field'', JStr ''Plumbing''), (''problem'', JStr ''x'')]"
      "\<lambda>v. []" "\<lparr>tmp_path = ''/tmp/tmp1.pdf'', fault = NoFault\<rparr>" "{}"]
  by (simp add: required_def sends_def bad_request_def)

text \<open>
  C10. The presence check is Python's truth value. A required field bound to a false JSON
  value (0, 0.0, false, null, an empty array, an empty object) is answered like a missing
  one, with HTTP 400, provided the connection takes the response. A string of white space
  is true: when the four required fields are non-empty strings, of white space or not, and
  nothing fails, the document is generated and sent with HTTP 200.
\<close>

theorem falsy_rejected_whitespace_accepted:
  "(k \<in> set required \<and> map_of kvs k = Some v \<and> \<not> truthy v \<and> sends e \<longrightarrow>
      events (do_POST py_str e fs (Inr (JObj kvs))) = bad_request \<and>
      outcome (do_POST py_str e fs (Inr (JObj kvs))) = None) \<and>
   \<not> truthy (JInt 0) \<and> \<not> truthy (JFloat 0) \<and> \<not> truthy (JBool False) \<and> \<not> truthy JNull \<and>
   \<not> truthy (JArr []) \<and> \<not> truthy (JObj []) \<and> truthy (JStr '' '') \<and>
   (map_of kvs ''name'' = Some (JStr name) \<and> map_of kvs ''email'' = Some (JStr email) \<and>
    map_of kvs ''field'' = Some (JStr field) \<and> map_of kvs ''problem'' = Some (JStr problem) \<and>
    name \<noteq> [] \<and> email \<noteq> [] \<and> field \<noteq> [] \<and> problem \<noteq> [] \<and> fault e = NoFault \<longrightarrow>
      events (do_POST py_str e fs (Inr (JObj kvs))) =
        [NamedTemporaryFile (tmp_path e), Generate_pdf (tmp_path e), Open_read (tmp_path e),
         Send_response 200, Send_header ''Content-Type'' ''application/json'', End_headers,
         Wfile_write (PdfBody (pages (generate_pdf_body name field problem (tmp_path e)))),
         Unlink (tmp_path e)] \<and>
      outcome (do_POST py_str e fs (Inr (JObj kvs))) = None)"
proof (intro conjI impI)
  assume a: "k \<in> set required \<and> map_of kvs k = Some v \<and> \<not> truthy v \<and> sends e"
  then have "\<not> truthy (dict_get kvs k (JStr ''''))"
    by (simp add: dict_get_def)
  with a have inv: "\<not> list_all truthy [dict_get kvs ''name'' (JStr ''''),
      dict_get kvs ''email'' (JStr ''''), dict_get kvs ''field'' (JStr ''''),
      dict_get kvs ''problem'' (JStr '''')]"
    by (intro falsy_required [of k]) simp_all
  from a show "events (do_POST py_str e fs (Inr (JObj kvs))) = bad_request"
    and "outcome (do_POST py_str e fs (Inr (JObj kvs))) = None"
    by (simp_all add: do_POST_invalid [OF inv] send_json_sends bad_request_def)
next
  assume a: "map_of kvs ''name'' = Some (JStr name) \<and> map_of kvs ''email'' = Some (JStr email) \<and>
    map_of kvs ''field'' = Some (JStr field) \<and> map_of kvs ''problem'' = Some (JStr problem) \<and>
    name \<noteq> [] \<and> email \<noteq> [] \<and> field \<noteq> [] \<and> problem \<noteq> [] \<and> fault e = NoFault"
  then have g: "dict_get kvs ''name'' (JStr '''') = JStr name"
    "dict_get kvs ''email'' (JStr '''') = JStr email"
    "dict_get kvs ''field'' (JStr '''') = JStr field"
    "dict_get kvs ''problem'' (JStr '''') = JStr problem"
    by (simp_all add: dict_get_def)
  from a have val: "list_all truthy [dict_get kvs ''name'' (JStr ''''),
      dict_get kvs ''email'' (JStr ''''), dict_get kvs ''field'' (JStr ''''),
      dict_get kvs ''problem'' (JStr '''')]"
    by (simp add: g)
  from a have s: "sends e" by (simp add: sends_def)
  from a have t: "try_block py_str e (JStr name) (JStr email) (JStr field)
      (dict_get kvs ''website'' (JStr '''')) (JStr problem) =
      ([Generate_pdf (tmp_path e), Open_read (tmp_path e),
        Send_response 200, Send_header ''Content-Type'' ''application/json'', End_headers,
        Wfile_write (PdfBody (pages (generate_pdf_body name field problem (tmp_path e))))], None)"
    by (simp add: try_block_def generate_pdf_def format_value_def send_json_sends [OF s])
  from a show "events (do_POST py_str e fs (Inr (JObj kvs))) =
        [NamedTemporaryFile (tmp_path e), Generate_pdf (tmp_path e), Open_read (tmp_path e),
         Send_response 200, Send_header ''Content-Type'' ''application/json'', End_headers,
         Wfile_write (PdfBody (pages (generate_pdf_body name field problem (tmp_path e)))),
         Unlink (tmp_path e)]"
    and "outcome (do_POST py_str e fs (Inr (JObj kvs))) = None"
    by (simp_all add: do_POST_valid [OF val] g t)
qed simp_all

theorem falsy_rejected_whitespace_accepted_witness:
  "events (do_POST (\<lambda>v. []) \<lparr>tmp_path = ''/tmp/tmp1.pdf'', fault = NoFault\<rparr> {}
     (Inr (JObj [(''name'', JInt 0), (''email'', JStr ''a@x.com''),
                 (''field'', JStr ''Plumbing''), (''problem'', JStr ''x'')]))) =
     [Send_response 400, Send_header ''Content-Type'' ''application/json'', End_headers,
      Wfile_write (ErrorBody ''Missing required fields'')] \<and>
   events (do_POST (\<lambda>v. []) \<lparr>tmp_path = ''/tmp/tmp1.pdf'', fault = NoFault\<rparr> {}
     (Inr (JObj [(''name'', JStr '' ''), (''email'', JStr ''a@x.com''),
                 (''field'', JStr ''Plumbing''), (''problem'', JStr ''x'')]))) =
     [NamedTemporaryFile ''/tmp/tmp1.pdf'', Generate_pdf ''/tmp/tmp1.pdf'',
      Open_read ''/tmp/tmp1.pdf'',
      Send_response 200, Send_header ''Content-Type'' ''application/json'', End_headers,
      Wfile_write (PdfBody (pages (generate_pdf_body '' '' ''Plumbing'' ''x'' ''/tmp/tmp1.pdf''))),
      Unlink ''/tmp/tmp1.pdf'']"
  using falsy_rejected_whitespace_accepted [of "''name''"
      "[(''name'', JInt 0), (''email'', JStr ''a@x.com''),
        (''field'', JStr ''Plumbing''), (''problem'', JStr ''x'')]" "JInt 0"
      "\<lparr>tmp_path = ''/tmp/tmp1.pdf'', fault = NoFault\<rparr>" "\<lambda>v. []" "{}"]
    falsy_rejected_whitespace_accepted [of "''name''"
      "[(''name'', JStr '' ''), (''email'', JStr ''a@x.com''),
        (''field'', JStr ''Plumbing''), (''problem'', JStr ''x'')]" "JNull"
      "\<lparr>tmp_path = ''/tmp/tmp1.pdf'', fault = NoFault\<rparr>" "\<lambda>v. []" "{}"
      "'' ''" "''a@x.com''" "''Plumbing''" "''x''"]
  by (simp add: required_def sends_def bad_request_def)

lemma try_block_events:
  assumes "x \<in> set (fst (try_block py_str e name email field website problem))"
  shows "x = Generate_pdf (tmp_path e) \<or> x = Open_read (tmp_path e) \<or>
    (\<exists>b. x \<in> set (fst (send_json e 200 b)))"
proof (cases "generate_pdf py_str name email field website problem (tmp_path e)")
  case (Inl ex)
  then show ?thesis using assms by (simp add: try_block_def)
next
  case (Inr doc)
  then show ?thesis using assms
    by (auto simp: try_block_def case_prod_beta split: if_splits)
qed

lemma try_block_no_temp:
  "NamedTemporaryFile p \<notin> set (fst (try_block py_str e name email field website problem))"
proof
  assume "NamedTemporaryFile p \<in> set (fst (try_block py_str e name email field website problem))"
  then obtain b where "NamedTemporaryFile p \<in> set (fst (send_json e 200 b))"
    using try_block_events by blast
  then show False using send_json_events [of e 200 b] by auto
qed

text \<open>
  C8. On every run of the handler that creates the temporary file, the file is removed
  before the handler is left, by return or by an exception: the run that sends the 200
  response, and every run in which \<^verbatim>\<open>generate_pdf\<close>, reading the file back or sending
  the response raises. Creating the file is the first call of such a run and removing it
  the last.
\<close>

theorem temp_file_removed:
  "NamedTemporaryFile p \<in> set (events (do_POST py_str e fs parsed)) \<longrightarrow>
     p = tmp_path e \<and>
     p \<notin> files (do_POST py_str e fs parsed) \<and>
     hd (events (do_POST py_str e fs parsed)) = NamedTemporaryFile p \<and>
     last (events (do_POST py_str e fs parsed)) = Unlink p"
proof
  assume a: "NamedTemporaryFile p \<in> set (events (do_POST py_str e fs parsed))"
  show "p = tmp_path e \<and> p \<notin> files (do_POST py_str e fs parsed) \<and>
     hd (events (do_POST py_str e fs parsed)) = NamedTemporaryFile p \<and>
     last (events (do_POST py_str e fs parsed)) = Unlink p"
  proof (cases parsed)
    case (Inl ex)
    then show ?thesis using a by (simp add: do_POST_def)
  next
    case (Inr body)
    show ?thesis
    proof (cases body)
      case (JObj kvs)
      let ?req = "[dict_get kvs ''name'' (JStr ''''), dict_get kvs ''email'' (JStr ''''),
            dict_get kvs ''field'' (JStr ''''), dict_get kvs ''problem'' (JStr '''')]"
      show ?thesis
      proof (cases "list_all truthy ?req")
        case True
        note r = do_POST_valid [OF True, of py_str e fs]
        show ?thesis
        proof (cases "fault e = TempFault")
          case True
          then show ?thesis using a by (simp add: Inr JObj r)
        next
          case False
          then have "p = tmp_path e"
            using a try_block_no_temp by (auto simp: Inr JObj r)
          then show ?thesis using False by (simp add: Inr JObj r)
        qed
      next
        case False
        have "NamedTemporaryFile p \<notin>
            set (fst (send_json e 400 (ErrorBody ''Missing required fields'')))"
          using send_json_events [of e 400 "ErrorBody ''Missing required fields''"] by auto
        then show ?thesis using a by (simp add: Inr JObj do_POST_invalid [OF False])
      qed
    qed (use a Inr in \<open>simp_all add: do_POST_def\<close>)
  qed
qed

theorem temp_file_removed_witness:
  "(let r = do_POST (\<lambda>v. []) \<lparr>tmp_path = ''/tmp/tmp1.pdf'', fault = NoFault\<rparr> {}
       (Inr (JObj [(''name'', JStr ''Acme Co''), (''email'', JStr ''a@x.com''),
                   (''field'', JStr ''Plumbing''), (''problem'', JStr ''x'')]))
    in NamedTemporaryFile ''/tmp/tmp1.pdf'' \<in> set (events r) \<and> Send_response 200 \<in> set (events r) \<and>
       outcome r = None \<and> ''/tmp/tmp1.pdf'' \<notin> files r \<and> last (events r) = Unlink ''/tmp/tmp1.pdf'') \<and>
   (let r = do_POST (\<lambda>v. []) \<lparr>tmp_path = ''/tmp/tmp1.pdf'', fault = NoFault\<rparr> {}
       (Inr (JObj [(''name'', JInt 5), (''email'', JStr ''a@x.com''),
                   (''field'', JStr ''Plumbing''), (''problem'', JStr ''x'')]))
    in NamedTemporaryFile ''/tmp/tmp1.pdf'' \<in> set (events r) \<and> Generate_pdf ''/tmp/tmp1.pdf'' \<in> set (events r) \<and>
       outcome r = Some AttributeError \<and> ''/tmp/tmp1.pdf'' \<notin> files r \<and>
       last (events r) = Unlink ''/tmp/tmp1.pdf'') \<and>
   (let r = do_POST (\<lambda>v. []) \<lparr>tmp_path = ''/tmp/tmp1.pdf'', fault = SendFault 3\<rparr> {}
       (Inr (JObj [(''name'', JStr ''Acme Co''), (''email'', JStr ''a@x.com''),
                   (''field'', JStr ''Plumbing''), (''problem'', JStr ''x'')]))
    in NamedTemporaryFile ''/tmp/tmp1.pdf'' \<in> set (events r) \<and> End_headers \<in> set (events r) \<and>
       outcome r = Some OSError \<and> ''/tmp/tmp1.pdf'' \<notin> files r \<and>
       last (events r) = Unlink ''/tmp/tmp1.pdf'')"
  using temp_file_removed [of "''/tmp/tmp1.pdf''" "\<lambda>v. []"
      "\<lparr>tmp_path = ''/tmp/tmp1.pdf'', fault = NoFault\<rparr>" "{}"
      "Inr (JObj [(''name'', JStr ''Acme Co''), (''email'', JStr ''a@x.com''),
                   (''field'', JStr ''Plumbing''), (''problem'', JStr ''x'')])"]
    temp_file_removed [of "''/tmp/tmp1.pdf''" "\<lambda>v. []"
      "\<lparr>tmp_path = ''/tmp/tmp1.pdf'', fault = NoFault\<rparr>" "{}"
      "Inr (JObj [(''name'', JInt 5), (''email'', JStr ''a@x.com''),
                   (''field'', JStr ''Plumbing''), (''problem'', JStr ''x'')])"]
    temp_file_removed [of "''/tmp/tmp1.pdf''" "\<lambda>v. []"
      "\<lparr>tmp_path = ''/tmp/tmp1.pdf'', fault = SendFault 3\<rparr>" "{}"
      "Inr (JObj [(''name'', JStr ''Acme Co''), (''email'', JStr ''a@x.com''),
                   (''field'', JStr ''Plumbing''), (''problem'', JStr ''x'')])"]
  by (simp add: do_POST_def dict_get_def try_block_def generate_pdf_def format_value_def
      send_json_def Let_def)

section \<open>Proofs: the card loops\<close>

lemma emit_sel [simp]:
  "page_code (emit k s) = page_code s @ [k]" "cursor (emit k s) = cursor s"
  "trail (emit k s) = trail s"
  by (simp_all add: emit_def)

lemma dec_y_sel [simp]:
  "page_code (dec_y d s) = page_code s" "cursor (dec_y d s) = cursor s - d"
  "trail (dec_y d s) = trail s @ [cursor s - d]"
  by (simp_all add: dec_y_def assign_y_def)

lemma lines_sel [simp]:
  "page_code (fold (\<lambda>(i, line). emit (g i line)) xs s) = page_code s @ map (\<lambda>(i, line). g i line) xs"
  "cursor (fold (\<lambda>(i, line). emit (g i line)) xs s) = cursor s"
  "trail (fold (\<lambda>(i, line). emit (g i line)) xs s) = trail s"
  by (induction xs arbitrary: s) (simp_all split: prod.split)
















section \<open>Proofs: the word wrap\<close>

lemma split_acc_nospace:
  "(\<forall>c \<in> set w. \<not> isspace c) \<Longrightarrow> split_acc cur (w @ rest) = split_acc (cur @ w) rest"
  by (induction w arbitrary: cur) simp_all

lemma split_acc_words:
  "(\<forall>c \<in> set cur. \<not> isspace c) \<Longrightarrow> list_all wf_word (split_acc cur s)"
  by (induction s arbitrary: cur) (simp_all add: wf_word_def)

lemma str_split_words: "list_all wf_word (str_split s)"
  by (simp add: str_split_def split_acc_words)

lemma isspace_space [simp]: "isspace CHR '' ''"
  by (simp add: isspace_def)

lemma isspace_newline [simp]: "isspace (CHR 0x0A)"
  by (simp add: isspace_def)

lemma split_acc_word:
  assumes "wf_word w"
  shows "split_acc [] w = [w]" "split_acc [] (w @ CHR '' '' # rest) = w # split_acc [] rest"
proof -
  from assms have n: "\<forall>c \<in> set w. \<not> isspace c" and e: "w \<noteq> []"
    by (simp_all add: wf_word_def)
  show "split_acc [] w = [w]"
    using split_acc_nospace [OF n, of "[]" "[]"] e by simp
  show "split_acc [] (w @ CHR '' '' # rest) = w # split_acc [] rest"
    using split_acc_nospace [OF n, of "[]" "CHR '' '' # rest"] e by simp
qed

lemma split_join: "list_all wf_word ws \<Longrightarrow> str_split (join ws) = ws"
  unfolding str_split_def
  by (induction ws rule: join.induct) (simp_all add: split_acc_word)

lemma join_no_newline:
  "list_all wf_word ws \<Longrightarrow> CHR 0x0A \<notin> set (join ws)"
  by (induction ws rule: join.induct) (auto simp: wf_word_def)

lemma split_on_no_sep:
  "sep \<notin> set s \<Longrightarrow> split_on sep cur s = [cur @ s]"
  by (induction s arbitrary: cur) auto

lemma split_on_pieces:
  "sep \<notin> set cur \<Longrightarrow> list_all (\<lambda>l. sep \<notin> set l) (split_on sep cur s)"
  by (induction s arbitrary: cur) simp_all

lemma split_nl_line: "CHR 0x0A \<notin> set l \<Longrightarrow> split_nl l = [l]"
  by (simp add: split_nl_def split_on_no_sep)

lemma split_nl_pieces: "l \<in> set (split_nl text) \<Longrightarrow> CHR 0x0A \<notin> set l"
  using split_on_pieces [of "CHR 0x0A" "[]" "text"] by (simp add: split_nl_def list_all_iff)

lemma filling_empty: "filling SW mW [] (- SW '' '')"
  by (simp add: filling_def)

lemma filling_first: "filling SW mW [t] (SW t)"
  by (simp add: filling_def Let_def)

lemma filling_add:
  assumes "filling SW mW row w" "w + SW '' '' + SW t \<le> mW \<or> row = []"
  shows "filling SW mW (row @ [t]) (w + SW '' '' + SW t)"
  unfolding filling_def
proof
  fix ts
  have "wrap_words SW mW [] (- SW '' '') ((row @ [t]) @ ts) =
      wrap_words SW mW row w (t # ts)"
    using assms(1) by (simp add: filling_def)
  also have "\<dots> = wrap_words SW mW (row @ [t]) (w + SW '' '' + SW t) ts"
    using assms(2) by (simp add: Let_def)
  finally show "wrap_words SW mW [] (- SW '' '') ((row @ [t]) @ ts) =
      wrap_words SW mW (row @ [t]) (w + SW '' '' + SW t) ts" .
qed

lemma filling_alone:
  assumes "filling SW mW row w" "row \<noteq> []"
  shows "wrap_words SW mW [] (- SW '' '') row = [join row]"
proof -
  have "wrap_words SW mW [] (- SW '' '') (row @ []) = wrap_words SW mW row w []"
    using assms(1) unfolding filling_def by blast
  then show ?thesis using assms(2) by simp
qed

lemma wrap_words_lines:
  assumes "filling SW mW row w" "list_all wf_word row" "list_all wf_word ts"
  shows "\<forall>l \<in> set (wrap_words SW mW row w ts).
           \<exists>ws. l = join ws \<and> list_all wf_word ws \<and>
                wrap_words SW mW [] (- SW '' '') ws = [join ws]"
  using assms
proof (induction ts arbitrary: row w)
  case Nil
  then show ?case using filling_alone [of SW mW row w] by auto
next
  case (Cons t ts)
  show ?case
  proof (cases "w + SW '' '' + SW t \<le> mW \<or> row = []")
    case True
    have "filling SW mW (row @ [t]) (w + SW '' '' + SW t)"
      using Cons.prems(1) True by (rule filling_add)
    moreover have "list_all wf_word (row @ [t])" "list_all wf_word ts"
      using Cons.prems by simp_all
    ultimately have "\<forall>l \<in> set (wrap_words SW mW (row @ [t]) (w + SW '' '' + SW t) ts).
           \<exists>ws. l = join ws \<and> list_all wf_word ws \<and>
                wrap_words SW mW [] (- SW '' '') ws = [join ws]"
      by (rule Cons.IH)
    then show ?thesis using True by (simp add: Let_def)
  next
    case False
    then have ne: "row \<noteq> []" by simp
    have 1: "wrap_words SW mW [] (- SW '' '') row = [join row]"
      using Cons.prems(1) ne by (rule filling_alone)
    have "list_all wf_word [t]" "list_all wf_word ts"
      using Cons.prems by simp_all
    with filling_first [of SW mW t]
    have 2: "\<forall>l \<in> set (wrap_words SW mW [t] (SW t) ts).
           \<exists>ws. l = join ws \<and> list_all wf_word ws \<and>
                wrap_words SW mW [] (- SW '' '') ws = [join ws]"
      by (rule Cons.IH)
    have "wrap_words SW mW row w (t # ts) = join row # wrap_words SW mW [t] (SW t) ts"
      using False by (simp add: Let_def)
    then show ?thesis using 1 2 Cons.prems(2) by auto
  qed
qed

lemma simpleSplit_line_again:
  assumes "l \<in> set (simpleSplit_line txt mW SW)"
  shows "simpleSplit_line l mW SW = [l]" "CHR 0x0A \<notin> set l"
proof -
  have "\<forall>l \<in> set (wrap_words SW mW [] (- SW '' '') (str_split txt)).
           \<exists>ws. l = join ws \<and> list_all wf_word ws \<and>
                wrap_words SW mW [] (- SW '' '') ws = [join ws]"
    using filling_empty [of SW mW] str_split_words [of "txt"]
    by (intro wrap_words_lines) simp_all
  with assms obtain ws where ws: "l = join ws" "list_all wf_word ws"
    "wrap_words SW mW [] (- SW '' '') ws = [join ws]"
    unfolding simpleSplit_line_def by blast
  show "simpleSplit_line l mW SW = [l]"
    using ws by (simp add: simpleSplit_line_def split_join)
  show "CHR 0x0A \<notin> set l"
    using ws join_no_newline by simp
qed

lemma simpleSplit_again:
  assumes "l \<in> set (simpleSplit text fontName fontSize maxWidth)"
  shows "simpleSplit l fontName fontSize maxWidth = [l]"
proof (cases "maxWidth = 0")
  case True
  then have "l \<in> set (split_nl text)"
    using assms by (simp add: simpleSplit_def)
  then have "split_nl l = [l]"
    by (intro split_nl_line split_nl_pieces)
  then show ?thesis using True by (simp add: simpleSplit_def)
next
  case False
  let ?SW = "\<lambda>t. stringWidth t fontName fontSize"
  from assms False obtain seg where "l \<in> set (simpleSplit_line seg maxWidth ?SW)"
    by (auto simp: simpleSplit_def)
  then have "simpleSplit_line l maxWidth ?SW = [l]" "split_nl l = [l]"
    using simpleSplit_line_again [of l seg maxWidth ?SW] by (simp_all add: split_nl_line)
  then show ?thesis using False by (simp add: simpleSplit_def)
qed

lemma concat_singletons: "(\<And>x. x \<in> set xs \<Longrightarrow> f x = [x]) \<Longrightarrow> concat (map f xs) = xs"
  by (induction xs) simp_all

text \<open>
  C5. Word-wrap idempotence: every line that \<^verbatim>\<open>simpleSplit\<close> produces, fed back through
  \<^verbatim>\<open>simpleSplit\<close> with the same font, size and width, comes back as that one line; so
  wrapping the lines of a wrapped text again, line by line, gives the same lines. This
  holds for every text, font size and width budget, zero and negative ones included.
\<close>

theorem wrap_idempotent:
  "(l \<in> set (simpleSplit text fontName fontSize maxWidth) \<longrightarrow>
      simpleSplit l fontName fontSize maxWidth = [l]) \<and>
   concat (map (\<lambda>l. simpleSplit l fontName fontSize maxWidth)
     (simpleSplit text fontName fontSize maxWidth)) = simpleSplit text fontName fontSize maxWidth"
  using simpleSplit_again [of _ "text" fontName fontSize maxWidth]
  by (simp add: concat_singletons)

theorem wrap_idempotent_witness:
  "simpleSplit ''hello  world this'' ''Courier'' 10 60 = [''hello'', ''world this''] \<and>
   simpleSplit ''world this'' ''Courier'' 10 60 = [''world this'']"
proof -
  have 1: "simpleSplit ''hello  world this'' ''Courier'' 10 60 = [''hello'', ''world this'']"
    by (simp add: simpleSplit_def split_nl_def simpleSplit_line_def str_split_def isspace_def
        stringWidth_def)
  then show ?thesis
    using wrap_idempotent [of "''world this''" "''hello  world this''" "''Courier''" 10 60]
    by simp
qed

section \<open>Proofs: the problem card and the statistics of page 2\<close>

lemma draws_cursor [simp]:
  "cursor (bg s) = cursor s" "cursor (footer s) = cursor s"
  "cursor (ignore_result (badge x y0 text' c) s) = cursor s"
  "cursor (dashed_card x y0 w h c s) = cursor s"
  "cursor (color_bar x y0 c w h s) = cursor s"
  by (simp_all add: draws_frame)

lemma assign_y_sel [simp]:
  "cursor (assign_y v s) = v" "page_code (assign_y v s) = page_code s"
  by (simp_all add: assign_y_def)

lemma cursor_header [simp]: "cursor (with_result (header pg t) assign_y s) = 18442 / 27"
proof -
  have "with_result (header pg t) assign_y s =
      assign_y (fst (header pg t s)) (snd (header pg t s))"
    by (simp add: with_result_def case_prod_beta del: fst_header)
  then show ?thesis by simp
qed

lemma cursor_problem_card [simp]:
  "cursor (problem_card p s) = cursor s - (problem_card_h p + 14)"
  by (simp add: problem_card_def Let_def at_y_def)















section \<open>Proofs: card heights\<close>

lemma wrap_eval:
  "stat_card_h ''aaaaaaaaaaaaaaaaaaaaaaaaaaaaaaaaaaaaaaaaa aaaaaaaaaaaaaaaaaaaaaaaaaaaaaaaaaaaaaaaaa aaaaaaaaaaaaaaaaaaaaaaaaaaaaaaaaaaaaaaaaa'' = 88"
  "stat_card_h ''aaaaaaaaaaaaaaaaaaaaaaaaaaaaaaaaaaaaaaaa aaaaaaaaaaaaaaaaaaaaaaaaaaaaaaaaaaaaaaaa aaaaaaaaaaaaaaaaaaaaaaaaaaaaaaaaaaaaaaaa aaaaaaaaaaaaaaaaaaaaaaaaaaaaaaaaaaaaaaaa'' = 76"
  "problem_card_h ''bbbbbbbbbbbbbbbbbbbbbbbbbbbbbbbbbbbbb bbbbbbbbbbbbbbbbbbbbbbbbbbbbbbbbbbbbb bbbbbbbbbbbbbbbbbbbbbbbbbbbbbbbbbbbbb'' = 82"
  "problem_card_h ''bbbbbbbbbbbbbbbbbbbbbbbbbbbbbbbbbbb bbbbbbbbbbbbbbbbbbbbbbbbbbbbbbbbbbb bbbbbbbbbbbbbbbbbbbbbbbbbbbbbbbbbbb bbbbbbbbbbbbbbbbbbbbbbbbbbbbbbbbbbb'' = 68"
  by (simp_all add: stat_card_h_def problem_card_h_def simpleSplit_def split_nl_def
      simpleSplit_line_def str_split_def isspace_def stringWidth_def CW_def MR_def ML'_def W_def
      letter_def)

text \<open>
  C6, as the spec states it, fails: a longer text can give a lower card. Three words of 41
  letters (125 characters) are wrapped at size 9 to three lines, four words of 40 letters
  (163 characters) to two; for the problem card, three words of 37 letters (113
  characters) take three lines and four words of 35 letters (143 characters) two.
\<close>

theorem card_height_monotone_counterexample:
  "length ''aaaaaaaaaaaaaaaaaaaaaaaaaaaaaaaaaaaaaaaaa aaaaaaaaaaaaaaaaaaaaaaaaaaaaaaaaaaaaaaaaa aaaaaaaaaaaaaaaaaaaaaaaaaaaaaaaaaaaaaaaaa''
     \<le> length ''aaaaaaaaaaaaaaaaaaaaaaaaaaaaaaaaaaaaaaaa aaaaaaaaaaaaaaaaaaaaaaaaaaaaaaaaaaaaaaaa aaaaaaaaaaaaaaaaaaaaaaaaaaaaaaaaaaaaaaaa aaaaaaaaaaaaaaaaaaaaaaaaaaaaaaaaaaaaaaaa'' \<and>
   stat_card_h ''aaaaaaaaaaaaaaaaaaaaaaaaaaaaaaaaaaaaaaaa aaaaaaaaaaaaaaaaaaaaaaaaaaaaaaaaaaaaaaaa aaaaaaaaaaaaaaaaaaaaaaaaaaaaaaaaaaaaaaaa aaaaaaaaaaaaaaaaaaaaaaaaaaaaaaaaaaaaaaaa''
     < stat_card_h ''aaaaaaaaaaaaaaaaaaaaaaaaaaaaaaaaaaaaaaaaa aaaaaaaaaaaaaaaaaaaaaaaaaaaaaaaaaaaaaaaaa aaaaaaaaaaaaaaaaaaaaaaaaaaaaaaaaaaaaaaaaa'' \<and>
   length ''bbbbbbbbbbbbbbbbbbbbbbbbbbbbbbbbbbbbb bbbbbbbbbbbbbbbbbbbbbbbbbbbbbbbbbbbbb bbbbbbbbbbbbbbbbbbbbbbbbbbbbbbbbbbbbb''
     \<le> length ''bbbbbbbbbbbbbbbbbbbbbbbbbbbbbbbbbbb bbbbbbbbbbbbbbbbbbbbbbbbbbbbbbbbbbb bbbbbbbbbbbbbbbbbbbbbbbbbbbbbbbbbbb bbbbbbbbbbbbbbbbbbbbbbbbbbbbbbbbbbb'' \<and>
   problem_card_h ''bbbbbbbbbbbbbbbbbbbbbbbbbbbbbbbbbbb bbbbbbbbbbbbbbbbbbbbbbbbbbbbbbbbbbb bbbbbbbbbbbbbbbbbbbbbbbbbbbbbbbbbbb bbbbbbbbbbbbbbbbbbbbbbbbbbbbbbbbbbb''
     < problem_card_h ''bbbbbbbbbbbbbbbbbbbbbbbbbbbbbbbbbbbbb bbbbbbbbbbbbbbbbbbbbbbbbbbbbbbbbbbbbb bbbbbbbbbbbbbbbbbbbbbbbbbbbbbbbbbbbbb''"
  by (simp add: wrap_eval)

section \<open>Proofs: a text extended at its end is wrapped to no fewer lines\<close>

lemma split_acc_scan:
  "split_acc cur s =
     closed_words cur s @ (if open_word cur s = [] then [] else [open_word cur s])"
  by (induction s arbitrary: cur) simp_all

lemma open_word_snoc:
  "open_word cur (s @ [c]) = (if isspace c then [] else open_word cur s @ [c])"
  by (induction s arbitrary: cur) simp_all

lemma closed_words_snoc:
  "closed_words cur (s @ [c]) =
     (if isspace c \<and> open_word cur s \<noteq> [] then closed_words cur s @ [open_word cur s]
      else closed_words cur s)"
  by (induction s arbitrary: cur) simp_all

lemma str_split_snoc:
  "str_split (s @ [c]) =
     (if isspace c then str_split s else closed_words [] s @ [open_word [] s @ [c]])"
  by (simp add: str_split_def split_acc_scan open_word_snoc closed_words_snoc)

lemma str_split_snoc2:
  "\<not> isspace q \<Longrightarrow>
   str_split (s @ [c, q]) =
     (if isspace c then str_split s @ [[q]] else closed_words [] s @ [open_word [] s @ [c, q]])"
proof -
  have "s @ [c, q] = (s @ [c]) @ [q]" by simp
  then show "\<not> isspace q \<Longrightarrow> ?thesis"
    by (simp only: str_split_snoc)
      (simp add: str_split_def split_acc_scan open_word_snoc closed_words_snoc)
qed

lemma wrap_more_words:
  "length (wrap_words SW mW row w ts) \<le> length (wrap_words SW mW row w (ts @ [t]))"
  by (induction ts arbitrary: row w) (simp_all add: Let_def)

lemma wrap_one_more_line:
  "length (wrap_words SW mW row w (ts @ [t])) \<le> length (wrap_words SW mW row w ts) + 1"
  by (induction ts arbitrary: row w) (simp_all add: Let_def)

lemma wrap_wider_last:
  "SW t \<le> SW t' \<Longrightarrow>
   length (wrap_words SW mW row w (ts @ [t])) \<le> length (wrap_words SW mW row w (ts @ [t']))"
  by (induction ts arbitrary: row w) (auto simp: Let_def)

lemma wrap_split_last:
  "0 \<le> SW '' '' \<Longrightarrow> SW tu = SW t + SW u \<Longrightarrow>
   length (wrap_words SW mW row w (ts @ [tu])) \<le> length (wrap_words SW mW row w (ts @ [t, u]))"
  by (induction ts arbitrary: row w) (auto simp: Let_def)

lemma stringWidth_append:
  "stringWidth (t @ u) fontName fontSize = stringWidth t fontName fontSize + stringWidth u fontName fontSize"
  by (simp add: stringWidth_def algebra_simps)

lemma stringWidth_nonneg: "0 \<le> fontSize \<Longrightarrow> 0 \<le> stringWidth t fontName fontSize"
  by (simp add: stringWidth_def)

lemma line_snoc:
  assumes "0 \<le> fontSize"
  shows "length (simpleSplit_line seg mW (\<lambda>t. stringWidth t fontName fontSize))
    \<le> length (simpleSplit_line (seg @ [c]) mW (\<lambda>t. stringWidth t fontName fontSize))"
proof (cases "isspace c")
  case True
  then show ?thesis by (simp add: simpleSplit_line_def str_split_snoc)
next
  case False
  let ?SW = "\<lambda>t. stringWidth t fontName fontSize"
  show ?thesis
  proof (cases "open_word [] seg = []")
    case True
    then have "str_split (seg @ [c]) = str_split seg @ [[c]]"
      using False by (simp add: str_split_snoc) (simp add: str_split_def split_acc_scan)
    then show ?thesis
      by (simp add: simpleSplit_line_def wrap_more_words)
  next
    case op: False
    have "?SW (open_word [] seg) \<le> ?SW (open_word [] seg @ [c])"
      using assms stringWidth_nonneg [of fontSize "[c]" fontName]
      by (simp add: stringWidth_append)
    then have "length (wrap_words ?SW mW [] (- ?SW '' '') (closed_words [] seg @ [open_word [] seg]))
      \<le> length (wrap_words ?SW mW [] (- ?SW '' '') (closed_words [] seg @ [open_word [] seg @ [c]]))"
      by (rule wrap_wider_last)
    then show ?thesis
      using False op
      by (simp add: simpleSplit_line_def str_split_snoc) (simp add: str_split_def split_acc_scan)
  qed
qed

lemma line_snoc_le:
  "length (simpleSplit_line (seg @ [c]) mW SW) \<le> length (simpleSplit_line seg mW SW) + 1"
proof (cases "isspace c")
  case True
  then show ?thesis by (simp add: simpleSplit_line_def str_split_snoc)
next
  case False
  have "length (wrap_words SW mW [] (- SW '' '') (closed_words [] seg @ [open_word [] seg @ [c]]))
      \<le> length (wrap_words SW mW [] (- SW '' '') (closed_words [] seg)) + 1"
    by (rule wrap_one_more_line)
  also have "\<dots> \<le> length (wrap_words SW mW [] (- SW '' '') (str_split seg)) + 1"
    using wrap_more_words [of SW mW "[]" "- SW '' ''" "closed_words [] seg" "open_word [] seg"]
    by (simp add: str_split_def split_acc_scan)
  finally show ?thesis
    using False by (simp add: simpleSplit_line_def str_split_snoc)
qed

lemma line_snoc2:
  assumes "0 \<le> fontSize" "\<not> isspace q"
  shows "length (simpleSplit_line (seg @ [q]) mW (\<lambda>t. stringWidth t fontName fontSize))
    \<le> length (simpleSplit_line (seg @ [c, q]) mW (\<lambda>t. stringWidth t fontName fontSize))"
proof -
  let ?SW = "\<lambda>t. stringWidth t fontName fontSize"
  let ?cl = "closed_words [] seg" and ?op = "open_word [] seg"
  have lhs: "str_split (seg @ [q]) = ?cl @ [?op @ [q]]"
    using assms(2) by (simp add: str_split_snoc)
  show ?thesis
  proof (cases "isspace c")
    case True
    then have rhs: "str_split (seg @ [c, q]) = str_split seg @ [[q]]"
      using assms(2) by (simp add: str_split_snoc2)
    show ?thesis
    proof (cases "?op = []")
      case True
      then show ?thesis
        by (simp add: simpleSplit_line_def lhs rhs) (simp add: str_split_def split_acc_scan)
    next
      case False
      have "0 \<le> ?SW '' ''"
        using assms(1) by (rule stringWidth_nonneg)
      moreover have "?SW (?op @ [q]) = ?SW ?op + ?SW [q]"
        by (rule stringWidth_append)
      ultimately have "length (wrap_words ?SW mW [] (- ?SW '' '') (?cl @ [?op @ [q]]))
          \<le> length (wrap_words ?SW mW [] (- ?SW '' '') (?cl @ [?op, [q]]))"
        by (rule wrap_split_last)
      then show ?thesis
        using False
        by (simp add: simpleSplit_line_def lhs rhs) (simp add: str_split_def split_acc_scan)
    qed
  next
    case False
    then have rhs: "str_split (seg @ [c, q]) = ?cl @ [?op @ [c, q]]"
      using assms(2) by (simp add: str_split_snoc2)
    have "?SW (?op @ [q]) \<le> ?SW (?op @ [c, q])"
      using assms(1) by (simp add: stringWidth_def mult_right_mono)
    then have "length (wrap_words ?SW mW [] (- ?SW '' '') (?cl @ [?op @ [q]]))
        \<le> length (wrap_words ?SW mW [] (- ?SW '' '') (?cl @ [?op @ [c, q]]))"
      by (rule wrap_wider_last)
    then show ?thesis
      by (simp add: simpleSplit_line_def lhs rhs)
  qed
qed

lemma split_on_nonempty: "split_on sep cur s \<noteq> []"
  by (induction s arbitrary: cur) simp_all

lemma split_on_snoc_sep: "split_on sep cur (s @ [sep]) = split_on sep cur s @ [[]]"
  by (induction s arbitrary: cur) simp_all

lemma split_on_snoc:
  "c \<noteq> sep \<Longrightarrow>
   split_on sep cur (s @ [c]) = butlast (split_on sep cur s) @ [last (split_on sep cur s) @ [c]]"
  by (induction s arbitrary: cur) (simp_all add: split_on_nonempty)

lemma split_nl_snoc:
  "\<exists>segs seg. split_nl t = segs @ [seg] \<and>
     split_nl (t @ [CHR 0x0A]) = segs @ [seg, []] \<and>
     (\<forall>c. c \<noteq> CHR 0x0A \<longrightarrow> split_nl (t @ [c]) = segs @ [seg @ [c]])"
proof -
  let ?R = "split_nl t"
  have R: "?R = butlast ?R @ [last ?R]"
    using split_on_nonempty [of "CHR 0x0A" "[]" t] by (simp add: split_nl_def)
  have "split_nl (t @ [CHR 0x0A]) = butlast ?R @ [last ?R, []]"
    using R by (simp add: split_nl_def split_on_snoc_sep)
  moreover have "\<forall>c. c \<noteq> CHR 0x0A \<longrightarrow> split_nl (t @ [c]) = butlast ?R @ [last ?R @ [c]]"
    by (simp add: split_nl_def split_on_snoc)
  ultimately show ?thesis using R by blast
qed

lemma simpleSplit_snoc:
  assumes "0 \<le> fontSize"
  shows "length (simpleSplit t fontName fontSize maxWidth)
    \<le> length (simpleSplit (t @ [c]) fontName fontSize maxWidth)"
proof -
  obtain segs seg where s: "split_nl t = segs @ [seg]"
    "split_nl (t @ [CHR 0x0A]) = segs @ [seg, []]"
    "\<And>c. c \<noteq> CHR 0x0A \<Longrightarrow> split_nl (t @ [c]) = segs @ [seg @ [c]]"
    using split_nl_snoc [of t] by blast
  show ?thesis
  proof (cases "c = CHR 0x0A")
    case True
    then show ?thesis by (simp add: simpleSplit_def Let_def s)
  next
    case False
    then show ?thesis
      using line_snoc [OF assms, of seg maxWidth fontName c]
      by (simp add: simpleSplit_def Let_def s)
  qed
qed

lemma simpleSplit_line_single:
  "\<not> isspace q \<Longrightarrow> length (simpleSplit_line [q] mW SW) = 1"
  by (simp add: simpleSplit_line_def str_split_def Let_def)

lemma simpleSplit_snoc2:
  assumes "0 \<le> fontSize" "\<not> isspace q"
  shows "length (simpleSplit (t @ [q]) fontName fontSize maxWidth)
    \<le> length (simpleSplit (t @ [c, q]) fontName fontSize maxWidth)"
proof -
  obtain segs seg where s: "split_nl t = segs @ [seg]"
    "split_nl (t @ [CHR 0x0A]) = segs @ [seg, []]"
    "\<And>c. c \<noteq> CHR 0x0A \<Longrightarrow> split_nl (t @ [c]) = segs @ [seg @ [c]]"
    using split_nl_snoc [of t] by blast
  from assms(2) have q: "q \<noteq> CHR 0x0A" by auto
  have tq: "split_nl (t @ [q]) = segs @ [seg @ [q]]"
    using q by (rule s(3))
  show ?thesis
  proof (cases "c = CHR 0x0A")
    case True
    have "split_nl ((t @ [CHR 0x0A]) @ [q]) =
        butlast (split_nl (t @ [CHR 0x0A])) @ [last (split_nl (t @ [CHR 0x0A])) @ [q]]"
      using q unfolding split_nl_def by (rule split_on_snoc)
    then have tcq: "split_nl (t @ [c, q]) = segs @ [seg, [q]]"
      using True by (simp add: s(2) butlast_append)
    show ?thesis
      using line_snoc_le [of seg q maxWidth "\<lambda>t. stringWidth t fontName fontSize"]
        simpleSplit_line_single [OF assms(2), of maxWidth "\<lambda>t. stringWidth t fontName fontSize"]
      by (simp add: simpleSplit_def Let_def tq tcq)
  next
    case False
    have "split_nl ((t @ [c]) @ [q]) =
        butlast (split_nl (t @ [c])) @ [last (split_nl (t @ [c])) @ [q]]"
      using q unfolding split_nl_def by (rule split_on_snoc)
    then have tcq: "split_nl (t @ [c, q]) = segs @ [seg @ [c, q]]"
      using False by (simp add: s(3) butlast_append)
    show ?thesis
      using line_snoc2 [OF assms, of seg maxWidth fontName c]
      by (simp add: simpleSplit_def Let_def tq tcq)
  qed
qed

lemma simpleSplit_prefix:
  assumes "0 \<le> fontSize" "prefix t1 t2"
  shows "length (simpleSplit t1 fontName fontSize maxWidth)
    \<le> length (simpleSplit t2 fontName fontSize maxWidth)"
proof -
  from assms(2) obtain zs where "t2 = t1 @ zs" by (auto simp: prefix_def)
  moreover have "length (simpleSplit t1 fontName fontSize maxWidth)
    \<le> length (simpleSplit (t1 @ zs) fontName fontSize maxWidth)"
  proof (induction zs rule: rev_induct)
    case Nil
    show ?case by simp
  next
    case (snoc c zs)
    then show ?case
      using simpleSplit_snoc [OF assms(1), of "t1 @ zs" fontName maxWidth c] by simp
  qed
  ultimately show ?thesis by simp
qed

lemma simpleSplit_prefix_quoted:
  assumes "0 \<le> fontSize" "prefix t1 t2" "\<not> isspace q"
  shows "length (simpleSplit (p # t1 @ [q]) fontName fontSize maxWidth)
    \<le> length (simpleSplit (p # t2 @ [q]) fontName fontSize maxWidth)"
proof -
  from assms(2) obtain zs where "t2 = t1 @ zs" by (auto simp: prefix_def)
  moreover have "length (simpleSplit (p # t1 @ [q]) fontName fontSize maxWidth)
    \<le> length (simpleSplit (p # (t1 @ zs) @ [q]) fontName fontSize maxWidth)"
  proof (induction zs rule: rev_induct)
    case Nil
    show ?case by simp
  next
    case (snoc c zs)
    then show ?case
      using simpleSplit_snoc2 [OF assms(1,3), of "p # t1 @ zs" fontName maxWidth c] by simp
  qed
  ultimately show ?thesis by simp
qed

text \<open>
  C6, as the code has it. A card height is fixed chrome plus line count times line height
  plus padding: it is non-decreasing in the number of lines the text is wrapped to, and a
  text extended at its end is wrapped to no fewer lines, so its card is no lower. This
  holds for the five card heights of the program; the problem card wraps the text in
  double quotes.
\<close>

theorem card_height_monotone:
  "(prefix t1 t2 \<longrightarrow>
      problem_card_h t1 \<le> problem_card_h t2 \<and> stat_card_h t1 \<le> stat_card_h t2 \<and>
      opp_card_h t1 \<le> opp_card_h t2 \<and> phase_card_h t1 \<le> phase_card_h t2 \<and>
      reason_card_h t1 \<le> reason_card_h t2) \<and>
   (length (simpleSplit (CHR 0x22 # t1 @ [CHR 0x22]) ''Courier'' 10 (CW - 30))
      \<le> length (simpleSplit (CHR 0x22 # t2 @ [CHR 0x22]) ''Courier'' 10 (CW - 30)) \<longrightarrow>
    problem_card_h t1 \<le> problem_card_h t2) \<and>
   (length (simpleSplit t1 ''Courier'' 9 (CW - 30))
      \<le> length (simpleSplit t2 ''Courier'' 9 (CW - 30)) \<longrightarrow>
    stat_card_h t1 \<le> stat_card_h t2) \<and>
   (length (simpleSplit t1 ''Courier'' 8 (CW - 30))
      \<le> length (simpleSplit t2 ''Courier'' 8 (CW - 30)) \<longrightarrow>
    opp_card_h t1 \<le> opp_card_h t2 \<and> phase_card_h t1 \<le> phase_card_h t2 \<and>
    reason_card_h t1 \<le> reason_card_h t2)"
proof (intro conjI impI)
  assume p: "prefix t1 t2"
  have q: "\<not> isspace (CHR 0x22)" by (simp add: isspace_def)
  show "problem_card_h t1 \<le> problem_card_h t2"
    using simpleSplit_prefix_quoted [OF _ p q, of 10 "CHR 0x22" "''Courier''" "CW - 30"]
    by (simp add: problem_card_h_def)
  show "stat_card_h t1 \<le> stat_card_h t2"
    using simpleSplit_prefix [OF _ p, of 9 "''Courier''" "CW - 30"]
    by (simp add: stat_card_h_def)
  have 8: "length (simpleSplit t1 ''Courier'' 8 (CW - 30))
      \<le> length (simpleSplit t2 ''Courier'' 8 (CW - 30))"
    using simpleSplit_prefix [OF _ p, of 8 "''Courier''" "CW - 30"] by simp
  show "opp_card_h t1 \<le> opp_card_h t2" "phase_card_h t1 \<le> phase_card_h t2"
    "reason_card_h t1 \<le> reason_card_h t2"
    using 8 by (simp_all add: opp_card_h_def phase_card_h_def reason_card_h_def)
qed (simp_all add: problem_card_h_def stat_card_h_def opp_card_h_def phase_card_h_def
    reason_card_h_def)

theorem card_height_monotone_witness:
  "problem_card_h ''We lose leads'' \<le> problem_card_h ''We lose leads because no one answers'' \<and>
   stat_card_h ''aaaaaaaaaaaaaaaaaaaaaaaaaaaaaaaaaaaaaaaa aaaaaaaaaaaaaaaaaaaaaaaaaaaaaaaaaaaaaaaa aaaaaaaaaaaaaaaaaaaaaaaaaaaaaaaaaaaaaaaa aaaaaaaaaaaaaaaaaaaaaaaaaaaaaaaaaaaaaaaa''
     \<le> stat_card_h ''aaaaaaaaaaaaaaaaaaaaaaaaaaaaaaaaaaaaaaaaa aaaaaaaaaaaaaaaaaaaaaaaaaaaaaaaaaaaaaaaaa aaaaaaaaaaaaaaaaaaaaaaaaaaaaaaaaaaaaaaaaa''"
proof -
  have "length (simpleSplit ''aaaaaaaaaaaaaaaaaaaaaaaaaaaaaaaaaaaaaaaa aaaaaaaaaaaaaaaaaaaaaaaaaaaaaaaaaaaaaaaa aaaaaaaaaaaaaaaaaaaaaaaaaaaaaaaaaaaaaaaa aaaaaaaaaaaaaaaaaaaaaaaaaaaaaaaaaaaaaaaa'' ''Courier'' 9 (CW - 30))
      \<le> length (simpleSplit ''aaaaaaaaaaaaaaaaaaaaaaaaaaaaaaaaaaaaaaaaa aaaaaaaaaaaaaaaaaaaaaaaaaaaaaaaaaaaaaaaaa aaaaaaaaaaaaaaaaaaaaaaaaaaaaaaaaaaaaaaaaa'' ''Courier'' 9 (CW - 30))"
    using wrap_eval(1,2) by (simp add: stat_card_h_def)
  then have "stat_card_h ''aaaaaaaaaaaaaaaaaaaaaaaaaaaaaaaaaaaaaaaa aaaaaaaaaaaaaaaaaaaaaaaaaaaaaaaaaaaaaaaa aaaaaaaaaaaaaaaaaaaaaaaaaaaaaaaaaaaaaaaa aaaaaaaaaaaaaaaaaaaaaaaaaaaaaaaaaaaaaaaa''
     \<le> stat_card_h ''aaaaaaaaaaaaaaaaaaaaaaaaaaaaaaaaaaaaaaaaa aaaaaaaaaaaaaaaaaaaaaaaaaaaaaaaaaaaaaaaaa aaaaaaaaaaaaaaaaaaaaaaaaaaaaaaaaaaaaaaaaa''"
    using card_height_monotone [of
        "''aaaaaaaaaaaaaaaaaaaaaaaaaaaaaaaaaaaaaaaa aaaaaaaaaaaaaaaaaaaaaaaaaaaaaaaaaaaaaaaa aaaaaaaaaaaaaaaaaaaaaaaaaaaaaaaaaaaaaaaa aaaaaaaaaaaaaaaaaaaaaaaaaaaaaaaaaaaaaaaa''"
        "''aaaaaaaaaaaaaaaaaaaaaaaaaaaaaaaaaaaaaaaaa aaaaaaaaaaaaaaaaaaaaaaaaaaaaaaaaaaaaaaaaa aaaaaaaaaaaaaaaaaaaaaaaaaaaaaaaaaaaaaaaaa''"]
    by blast
  moreover have "problem_card_h ''We lose leads''
      \<le> problem_card_h ''We lose leads because no one answers''"
    using card_height_monotone [of "''We lose leads''" "''We lose leads because no one answers''"]
    by simp
  ultimately show ?thesis by simp
qed

end
